theory Spec2Isabelle
  imports Complex_Main
begin

section \<open>The recommender commands of \<open>src/backend/tcop/utility.c\<close>\<close>

text \<open>
  The file adds two utility commands to PostgreSQL: \<open>T_CreateRStmt\<close> builds a
  recommender (catalogue row, properties table, index table, one model and one view
  table per cell) and \<open>T_DropRecStmt\<close> destroys one. Both work by printing SQL
  text with \<open>sprintf\<close> and handing it to \<open>recathon_utilityExecute\<close>,
  \<open>recathon_queryExecute\<close> and \<open>recathon_queryStart\<close>.

  The embedding keeps every statement the C code issues, in the order it issues them,
  as a value of the datatypes \<open>stmt\<close> and \<open>query\<close> (the parsed form of the
  printed text). The byte buffers the text is printed into (\<open>palloc\<close> of 256, 512
  or 1024 bytes) and the freeing of them are memory layout and are not part of the model.
\<close>

subsection \<open>Values, statements, errors\<close>

datatype val =
    DefaultV
  | NullV
  | IntV int
  | TextV string
  | RealV string
  | BoolV bool
  | LocalTimestampV

text \<open>
  \<open>RealV\<close> holds a REAL literal by its SQL text (\<open>0.0\<close>, \<open>0.5\<close>);
  \<open>DefaultV\<close> and \<open>LocalTimestampV\<close> are the keywords \<open>default\<close> and
  \<open>localtimestamp\<close> of an INSERT, stored as written.
\<close>

datatype stmt =
    CreateTable string "string list"
  | CreateTableIfNotExists string "string list"
  | DropTable string
  | InsertInto string "val list"
  | DeleteFrom string string val

datatype query =
    SelectDistinct "string list" string
  | SelectAll string

datatype errcode =
    ERRCODE_INVALID_SCHEMA_NAME
  | ERRCODE_CASE_NOT_FOUND
  | ERRCODE_DUPLICATE_TABLE
  | ERRCODE_UNDEFINED_TABLE
  | ERRCODE_UNDEFINED_COLUMN
  | ERRCODE_SYNTAX_ERROR

datatype error =
    ERROR errcode string
  | CRASH string
  | UNMODELLED string

text \<open>
  \<open>ERROR\<close> is \<open>ereport(ERROR, ...)\<close>: control does not come back to the
  caller. \<open>CRASH\<close> stands for the places where the C code would use a NULL pointer
  as a string. \<open>UNMODELLED\<close> stands for the places where the text the C code prints
  is not the statement the model holds, or does not fit the buffer it is printed into:
  nothing is said about the code from there on.
\<close>

record table =
  cols :: "string list"
  rows :: "val list list"

type_synonym db = "string \<rightharpoonup> table"

subsection \<open>The request structures\<close>

datatype recMethod = itemCosCF | itemPearCF | userCosCF | userPearCF | SVD

text \<open>
  \<open>CreateRStmt\<close>, the request after \<open>validateCreateRStmt\<close>. Of each
  \<open>RangeVar\<close> the \<open>relname\<close> is kept, nothing else of it is read;
  \<open>methodname\<close> is the field \<open>recStmt->method\<close>, the method as text.

  Modelled from the spec: \<open>validateCreateRStmt\<close> is declared in
  \<open>utils/recathon.h\<close> and is not in \<open>utility.c\<close>. The request arrives
  validated; what the call returns is kept with the request: \<open>attributes\<close> is
  the attribute list it returns (the \<open>colname\<close> of each node, in order) and
  \<open>recmethod\<close> the method it stores through \<open>&method\<close>.
\<close>

record CreateRStmt =
  relation :: string
  usertable :: string
  itemtable :: string
  ratingtable :: string
  userkey :: string
  itemkey :: string
  ratingval :: string
  methodname :: string
  recmethod :: recMethod
  attributes :: "string list"

text \<open>
  Modelled from the spec: the third output of \<open>validateCreateRStmt\<close>, the number
  of context attributes.
\<close>

definition numatts :: "CreateRStmt \<Rightarrow> nat" where
  "numatts recStmt = length (attributes recStmt)"

subsection \<open>The modelling functions and the clock\<close>

datatype stats =
    Lengths int "int list" "real list"
  | Pearsons int "int list" "real list" "real list"

text \<open>
  The arguments every \<open>update...Model\<close> function and \<open>SVDsimilarity\<close> receive.
  In the context-free branch the C code passes NULL for both arrays; here that is the
  empty list. An attribute value is what \<open>getTupleString\<close> returned, \<open>None\<close>
  for NULL.
\<close>

record model_args =
  m_usertable :: string
  m_itemtable :: string
  m_ratingtable :: string
  m_userkey :: string
  m_itemkey :: string
  m_ratingval :: string
  m_modelnames :: "string list"
  m_attnames :: "string list"
  m_attvalues :: "string option list"

datatype backend_call =
    Vector_lengths string string string string
  | Pearson_info string string string string
  | UpdateItemCosModel model_args stats
  | UpdateItemPearModel model_args stats
  | UpdateUserCosModel model_args stats
  | UpdateUserPearModel model_args stats
  | SVDsimilarity model_args

datatype backend_result = Failed error | Stats stats | NumRatings int

text \<open>
  Modelled from the spec: the modelling functions (\<open>vector_lengths\<close>,
  \<open>pearson_info\<close>, \<open>updateItemCosModel\<close>, ..., \<open>SVDsimilarity\<close>) and
  \<open>gettimeofday\<close> are not in \<open>utility.c\<close>. They are parameters: \<open>call_stats\<close>
  answers the two precomputations, \<open>call_model\<close> returns the number of ratings a
  populate call consumed, both may fail, both read the database. What a populate call
  writes into its model table is not modelled: no statement of \<open>utility.c\<close> reads
  a model table. \<open>gettimeofday ext n\<close> is the \<open>(tv_sec, tv_usec)\<close> of the \<open>n\<close>-th
  clock read.
\<close>

record externals =
  gettimeofday :: "nat \<Rightarrow> int \<times> int"
  call_stats :: "db \<Rightarrow> backend_call \<Rightarrow> error + stats"
  call_model :: "db \<Rightarrow> backend_call \<Rightarrow> error + int"

subsection \<open>State: the database, a trace of what was issued, the clock reads\<close>

datatype event =
    Utility stmt
  | Execute stmt
  | QueryStart query
  | Backend backend_call backend_result
  | WARNING errcode string

record state =
  tables :: db
  trace :: "event list"
  ticks :: nat

type_synonym 'a io = "state \<Rightarrow> (error + 'a) \<times> state"

definition ret :: "'a \<Rightarrow> 'a io" where
  "ret x s = (Inr x, s)"

definition raise :: "error \<Rightarrow> 'a io" where
  "raise e s = (Inl e, s)"

definition bind :: "'a io \<Rightarrow> ('a \<Rightarrow> 'b io) \<Rightarrow> 'b io" where
  "bind m f s = (case m s of (Inl e, s') \<Rightarrow> (Inl e, s') | (Inr x, s') \<Rightarrow> f x s')"

definition seq :: "unit io \<Rightarrow> 'b io \<Rightarrow> 'b io" where
  "seq m n = bind m (\<lambda>_. n)"

definition emit :: "event \<Rightarrow> unit io" where
  "emit e s = (Inr (), s\<lparr>trace := trace s @ [e]\<rparr>)"

fun forEach :: "('a \<Rightarrow> unit io) \<Rightarrow> 'a list \<Rightarrow> unit io" where
  "forEach f [] s = (Inr (), s)"
| "forEach f (x # xs) s =
     (case f x s of (Inl e, s') \<Rightarrow> (Inl e, s') | (Inr _, s') \<Rightarrow> forEach f xs s')"

subsection \<open>The relational engine\<close>

text \<open>\<open>tolower\<close> of the C locale: only \<open>A\<close>..\<open>Z\<close> change.\<close>

definition tolower :: "char \<Rightarrow> char" where
  "tolower c =
     (let n = (of_char c :: nat) in if 65 \<le> n \<and> n \<le> 90 then char_of (n + 32) else c)"

definition downcase :: "string \<Rightarrow> string" where
  "downcase n = map tolower n"

text \<open>
  Modelled from the spec: the engine behind \<open>executeDDL\<close>, \<open>executeDML\<close>,
  \<open>openCursor\<close> and \<open>tableExists\<close> (\<open>recathon_utilityExecute\<close>,
  \<open>recathon_queryExecute\<close>, \<open>recathon_queryStart\<close> with \<open>ExecProcNode\<close>,
  \<open>relationExists\<close>) is not in \<open>utility.c\<close>. \<open>apply_stmt\<close> is what
  a statement does to the database. An identifier inside SQL text is folded to
  lower case, which the C code relies on (it creates \<open>%sIndex\<close> and reads
  \<open>%sindex\<close>); a plain CREATE TABLE of an existing relation, a DROP TABLE of a
  missing one and any statement on a missing relation or column are backend failures,
  which are fatal (section 7 of the spec). Column types, constraints and the number of
  values of an INSERT are not checked; a missing value reads as NULL.
\<close>

definition apply_stmt :: "stmt \<Rightarrow> db \<Rightarrow> error + db" where
  "apply_stmt st d =
     (case st of
        CreateTable n cs \<Rightarrow>
          (if d (downcase n) \<noteq> None
           then Inl (ERROR ERRCODE_DUPLICATE_TABLE (downcase n))
           else Inr (d(downcase n \<mapsto> \<lparr>cols = map downcase cs, rows = []\<rparr>)))
      | CreateTableIfNotExists n cs \<Rightarrow>
          (if d (downcase n) \<noteq> None then Inr d
           else Inr (d(downcase n \<mapsto> \<lparr>cols = map downcase cs, rows = []\<rparr>)))
      | DropTable n \<Rightarrow>
          (if d (downcase n) = None
           then Inl (ERROR ERRCODE_UNDEFINED_TABLE (downcase n))
           else Inr (d(downcase n := None)))
      | InsertInto n r \<Rightarrow>
          (case d (downcase n) of
             None \<Rightarrow> Inl (ERROR ERRCODE_UNDEFINED_TABLE (downcase n))
           | Some t \<Rightarrow> Inr (d(downcase n \<mapsto> t\<lparr>rows := rows t @ [r]\<rparr>)))
      | DeleteFrom n c v \<Rightarrow>
          (case d (downcase n) of
             None \<Rightarrow> Inl (ERROR ERRCODE_UNDEFINED_TABLE (downcase n))
           | Some t \<Rightarrow>
               (if downcase c \<notin> set (cols t)
                then Inl (ERROR ERRCODE_UNDEFINED_COLUMN (downcase c))
                else Inr (d(downcase n \<mapsto>
                       t\<lparr>rows := filter (\<lambda>r. map_of (zip (cols t) r) (downcase c) \<noteq> Some v)
                                         (rows t)\<rparr>)))))"

text \<open>
  Modelled from the spec: running a statement records it in the trace. A backend failure
  is fatal (section 7 of the spec): it leaves the database as it was before the
  statement, and nothing done before it is rolled back (section 5: no transaction
  wrapping). The one exception is a DROP TABLE that fails: each drop is independent and
  one artifact failing does not abort the caller (section 4.4, step 3, of the spec), so
  the call returns and the database is as it was before the statement.
\<close>

definition run_stmt :: "event \<Rightarrow> stmt \<Rightarrow> unit io" where
  "run_stmt e st s =
     (case apply_stmt st (tables s) of
        Inl err \<Rightarrow>
          (case st of
             DropTable n \<Rightarrow> (Inr (), s\<lparr>trace := trace s @ [e]\<rparr>)
           | _ \<Rightarrow> (Inl err, s\<lparr>trace := trace s @ [e]\<rparr>))
      | Inr d \<Rightarrow> (Inr (), s\<lparr>tables := d, trace := trace s @ [e]\<rparr>))"

text \<open>Modelled from the spec: \<open>executeDDL(text)\<close>.\<close>

definition recathon_utilityExecute :: "stmt \<Rightarrow> unit io" where
  "recathon_utilityExecute st = run_stmt (Utility st) st"

text \<open>Modelled from the spec: \<open>executeDML(text)\<close>.\<close>

definition recathon_queryExecute :: "stmt \<Rightarrow> unit io" where
  "recathon_queryExecute st = run_stmt (Execute st) st"

text \<open>
  Modelled from the spec: \<open>tableExists(name)\<close>. The name comes from
  \<open>makeRangeVar\<close>, not from SQL text, and is looked up as it is.
\<close>

definition relationExists :: "state \<Rightarrow> string \<Rightarrow> bool" where
  "relationExists s n = (tables s n \<noteq> None)"

type_synonym slot = "(string \<times> val) list"

text \<open>The value of column \<open>c\<close> in row \<open>r\<close> of a table with columns \<open>cs\<close>.\<close>

definition field :: "string list \<Rightarrow> val list \<Rightarrow> string \<Rightarrow> val" where
  "field cs r c = (case map_of (zip cs r) c of Some v \<Rightarrow> v | None \<Rightarrow> NullV)"

text \<open>
  Modelled from the spec: the rows a query returns. SELECT DISTINCT is the projection
  on the named columns without duplicates (section 4.1 of the spec), \<open>select *\<close>
  is every row; each row comes as a slot, the values paired with their column names.
\<close>

definition run_query :: "query \<Rightarrow> db \<Rightarrow> error + slot list" where
  "run_query q d =
     (case q of
        SelectDistinct as n \<Rightarrow>
          (case d (downcase n) of
             None \<Rightarrow> Inl (ERROR ERRCODE_UNDEFINED_TABLE (downcase n))
           | Some t \<Rightarrow>
               (if as = [] then Inl (ERROR ERRCODE_SYNTAX_ERROR (downcase n))
                else if \<not> set (map downcase as) \<subseteq> set (cols t)
                then Inl (ERROR ERRCODE_UNDEFINED_COLUMN (downcase n))
                else Inr (map (zip (map downcase as))
                            (remdups (map (\<lambda>r. map (field (cols t) r) (map downcase as))
                                          (rows t))))))
      | SelectAll n \<Rightarrow>
          (case d (downcase n) of
             None \<Rightarrow> Inl (ERROR ERRCODE_UNDEFINED_TABLE (downcase n))
           | Some t \<Rightarrow> Inr (map (\<lambda>r. zip (cols t) (map (field (cols t) r) (cols t))) (rows t))))"

text \<open>
  Modelled from the spec: \<open>openCursor(text)\<close>, that is
  \<open>recathon_queryStart\<close> followed by the \<open>for (;;)\<close> loop over
  \<open>ExecProcNode\<close>: the slots the loop will see, in order, fixed when the query
  starts.
\<close>

definition recathon_queryStart :: "query \<Rightarrow> slot list io" where
  "recathon_queryStart q s =
     (case run_query q (tables s) of
        Inl err \<Rightarrow> (Inl err, s\<lparr>trace := trace s @ [QueryStart q]\<rparr>)
      | Inr sl \<Rightarrow> (Inr sl, s\<lparr>trace := trace s @ [QueryStart q]\<rparr>))"

fun digits :: "nat \<Rightarrow> string" where
  "digits n =
     (if n < 10 then [char_of (48 + n)] else digits (n div 10) @ [char_of (48 + n mod 10)])"

text \<open>\<open>%ld\<close> of \<open>sprintf\<close>.\<close>

definition show_long :: "int \<Rightarrow> string" where
  "show_long i = (if i < 0 then CHR ''-'' # digits (nat (- i)) else digits (nat i))"

definition textual :: "val \<Rightarrow> string option" where
  "textual v =
     (case v of
        TextV t \<Rightarrow> Some t
      | IntV i \<Rightarrow> Some (show_long i)
      | RealV t \<Rightarrow> Some t
      | BoolV b \<Rightarrow> Some (if b then ''t'' else ''f'')
      | _ \<Rightarrow> None)"

text \<open>
  Modelled from the spec: \<open>getTupleString\<close> (not in \<open>utility.c\<close>) returns the textual
  representation of the named attribute of the slot, NULL (\<open>None\<close>) when there is
  none.
\<close>

definition getTupleString :: "slot \<Rightarrow> string \<Rightarrow> string option" where
  "getTupleString sl a = (case map_of sl a of Some v \<Rightarrow> textual v | None \<Rightarrow> None)"

subsection \<open>Catalogue lookups\<close>

text \<open>
  Modelled from the spec: \<open>recommenderExists\<close> (not in \<open>utility.c\<close>) verifies that the
  named recommender exists in the recommender-list table, where a recommender is
  identified by its index-table name, \<open>%sIndex\<close> as the build stores it.
\<close>

definition recommenderExists :: "state \<Rightarrow> string \<Rightarrow> bool" where
  "recommenderExists s recname =
     (case tables s ''recmodelscatalogue'' of
        None \<Rightarrow> False
      | Some t \<Rightarrow>
          list_ex (\<lambda>r. field (cols t) r ''recommenderindexname'' = TextV (recname @ ''Index''))
            (rows t))"

text \<open>
  Modelled from the spec: \<open>getRecInfo\<close> (not in \<open>utility.c\<close>), called with every
  output but \<open>&method\<close> NULL, reads back the method of the recommender with the
  given index-table name; \<open>None\<close> is a NULL \<open>method\<close>.
\<close>

definition getRecInfo :: "state \<Rightarrow> string \<Rightarrow> string option" where
  "getRecInfo s recindexname =
     (case tables s ''recmodelscatalogue'' of
        None \<Rightarrow> None
      | Some t \<Rightarrow>
          (case find (\<lambda>r. field (cols t) r ''recommenderindexname'' = TextV recindexname)
                  (rows t) of
             None \<Rightarrow> None
           | Some r \<Rightarrow> textual (field (cols t) r ''method'')))"

subsection \<open>Building the cells: \<open>itemSimilarity\<close>, \<open>userSimilarity\<close>, \<open>SVDSimilarity\<close>\<close>

text \<open>
  One call of \<open>gettimeofday\<close>, and one call of a precomputation or of a populate
  function: the answer is the parameter's, the call and what it returned go into the
  trace.
\<close>

definition read_clock :: "externals \<Rightarrow> (int \<times> int) io" where
  "read_clock ext s = (Inr (gettimeofday ext (ticks s)), s\<lparr>ticks := Suc (ticks s)\<rparr>)"

definition backend_stats :: "externals \<Rightarrow> backend_call \<Rightarrow> stats io" where
  "backend_stats ext c s =
     (case call_stats ext (tables s) c of
        Inl e \<Rightarrow> (Inl e, s\<lparr>trace := trace s @ [Backend c (Failed e)]\<rparr>)
      | Inr st \<Rightarrow> (Inr st, s\<lparr>trace := trace s @ [Backend c (Stats st)]\<rparr>))"

definition backend_model :: "externals \<Rightarrow> backend_call \<Rightarrow> int io" where
  "backend_model ext c s =
     (case call_model ext (tables s) c of
        Inl e \<Rightarrow> (Inl e, s\<lparr>trace := trace s @ [Backend c (Failed e)]\<rparr>)
      | Inr n \<Rightarrow> (Inr n, s\<lparr>trace := trace s @ [Backend c (NumRatings n)]\<rparr>))"

text \<open>The \<open>%ld%ld\<close> that follows \<open>Model\<close> and \<open>View\<close> in every name.\<close>

definition stamp :: "int \<times> int \<Rightarrow> string" where
  "stamp ts = show_long (fst ts) @ show_long (snd ts)"

definition model_names :: "CreateRStmt \<Rightarrow> (string \<times> string list) list \<Rightarrow> int \<times> int \<Rightarrow> string list" where
  "model_names recStmt models ts = map (\<lambda>(k, cs). relation recStmt @ k @ stamp ts) models"

definition view_name :: "CreateRStmt \<Rightarrow> int \<times> int \<Rightarrow> string" where
  "view_name recStmt ts = relation recStmt @ ''View'' @ stamp ts"

definition index_row :: "string list \<Rightarrow> string \<Rightarrow> int \<Rightarrow> string list \<Rightarrow> val list" where
  "index_row names view numRatings attvalues =
     DefaultV # map TextV names @
     [TextV view, IntV 0, IntV numRatings, IntV 0, RealV ''0.0'', RealV ''0.0'', LocalTimestampV] @
     map TextV attvalues"

text \<open>
  The body the three C functions repeat for one cell, in the loop and in the
  context-free branch alike: one clock read, the model table or tables, the view table
  with its dummy tuple, the populate call, the row of the index table. \<open>models\<close>
  lists what differs between the three: the infix and the columns of each model table.
  \<open>call\<close> is the populate call; \<open>None\<close> is the case where neither \<open>if\<close> on
  \<open>method\<close> fires and \<open>numRatings\<close> keeps its initial 0.
\<close>

text \<open>
  The row of the index table is printed with \<open>sprintf(addition, ", '%s'", attvalues[i])\<close>
  for each attribute value, \<open>addition\<close> being 256 bytes: a NULL value is
  undefined behaviour of \<open>sprintf\<close>, here the crash, and a value with a quote in
  it, or of 252 bytes or more, is not printed as the literal of that value, or not within
  the buffer.
\<close>

definition printable :: "string \<Rightarrow> bool" where
  "printable v \<longleftrightarrow> CHR 0x27 \<notin> set v \<and> length v < 252"

definition insertIndexRow ::
  "CreateRStmt \<Rightarrow> string list \<Rightarrow> string \<Rightarrow> int \<Rightarrow> string option list \<Rightarrow> unit io" where
  "insertIndexRow recStmt names view numRatings attvalues =
     (case those attvalues of
        None \<Rightarrow> raise (CRASH ''attvalues'')
      | Some vs \<Rightarrow>
          (if list_all printable vs
           then recathon_queryExecute
                  (InsertInto (relation recStmt @ ''Index'') (index_row names view numRatings vs))
           else raise (UNMODELLED ''attvalues'')))"

definition buildCell ::
  "externals \<Rightarrow> CreateRStmt \<Rightarrow> (string \<times> string list) list \<Rightarrow>
   (model_args \<Rightarrow> backend_call option) \<Rightarrow> string list \<Rightarrow> string option list \<Rightarrow> unit io" where
  "buildCell ext recStmt models call attnames attvalues =
     bind (read_clock ext) (\<lambda>ts.
     seq (forEach (\<lambda>(n, cs). recathon_utilityExecute (CreateTable n cs))
            (zip (model_names recStmt models ts) (map snd models)))
    (seq (recathon_utilityExecute
            (CreateTable (view_name recStmt ts) [userkey recStmt, itemkey recStmt, ''recscore'']))
    (seq (recathon_queryExecute
            (InsertInto (view_name recStmt ts) [IntV (- 1), IntV (- 1), IntV (- 1)]))
    (bind (case call \<lparr>m_usertable = usertable recStmt, m_itemtable = itemtable recStmt,
                      m_ratingtable = ratingtable recStmt, m_userkey = userkey recStmt,
                      m_itemkey = itemkey recStmt, m_ratingval = ratingval recStmt,
                      m_modelnames = model_names recStmt models ts,
                      m_attnames = attnames, m_attvalues = attvalues\<rparr> of
             None \<Rightarrow> ret 0
           | Some c \<Rightarrow> backend_model ext c) (\<lambda>numRatings.
     insertIndexRow recStmt (model_names recStmt models ts) (view_name recStmt ts)
       numRatings attvalues)))))"

text \<open>
  \<open>if (numatts > 0)\<close>: SELECT DISTINCT over the user table, one cell per slot, the
  attribute values read from the slot by name, NULL or not, before the body of the cell
  runs; \<open>else\<close>: the one context-free cell.
\<close>

definition slotCell ::
  "CreateRStmt \<Rightarrow> (string list \<Rightarrow> string option list \<Rightarrow> unit io) \<Rightarrow> slot \<Rightarrow> unit io" where
  "slotCell recStmt cell sl =
     cell (attributes recStmt) (map (getTupleString sl) (attributes recStmt))"

definition allCells ::
  "CreateRStmt \<Rightarrow> (string list \<Rightarrow> string option list \<Rightarrow> unit io) \<Rightarrow> unit io" where
  "allCells recStmt cell =
     (if numatts recStmt > 0
      then bind (recathon_queryStart (SelectDistinct (attributes recStmt) (usertable recStmt)))
             (forEach (slotCell recStmt cell))
      else cell [] [])"

definition itemSimilarity :: "externals \<Rightarrow> CreateRStmt \<Rightarrow> recMethod \<Rightarrow> unit io" where
  "itemSimilarity ext recStmt meth =
     (let models = [(''Model'', [''item1'', ''item2'', ''similarity''])] in
      if meth = itemCosCF
      then bind (backend_stats ext (Vector_lengths (itemtable recStmt) (itemkey recStmt)
                                      (ratingtable recStmt) (ratingval recStmt)))
             (\<lambda>st. allCells recStmt
                (buildCell ext recStmt models (\<lambda>a. Some (UpdateItemCosModel a st))))
      else if meth = itemPearCF
      then bind (backend_stats ext (Pearson_info (itemtable recStmt) (itemkey recStmt)
                                      (ratingtable recStmt) (ratingval recStmt)))
             (\<lambda>st. allCells recStmt
                (buildCell ext recStmt models (\<lambda>a. Some (UpdateItemPearModel a st))))
      else allCells recStmt (buildCell ext recStmt models (\<lambda>a. None)))"

definition userSimilarity :: "externals \<Rightarrow> CreateRStmt \<Rightarrow> recMethod \<Rightarrow> unit io" where
  "userSimilarity ext recStmt meth =
     (let models = [(''Model'', [''user1'', ''user2'', ''similarity''])] in
      if meth = userCosCF
      then bind (backend_stats ext (Vector_lengths (usertable recStmt) (userkey recStmt)
                                      (ratingtable recStmt) (ratingval recStmt)))
             (\<lambda>st. allCells recStmt
                (buildCell ext recStmt models (\<lambda>a. Some (UpdateUserCosModel a st))))
      else if meth = userPearCF
      then bind (backend_stats ext (Pearson_info (usertable recStmt) (userkey recStmt)
                                      (ratingtable recStmt) (ratingval recStmt)))
             (\<lambda>st. allCells recStmt
                (buildCell ext recStmt models (\<lambda>a. Some (UpdateUserPearModel a st))))
      else allCells recStmt (buildCell ext recStmt models (\<lambda>a. None)))"

definition SVDSimilarity :: "externals \<Rightarrow> CreateRStmt \<Rightarrow> unit io" where
  "SVDSimilarity ext recStmt =
     allCells recStmt
       (buildCell ext recStmt
          [(''UserModel'', [''users'', ''feature'', ''value'']),
           (''ItemModel'', [''items'', ''feature'', ''value''])]
          (\<lambda>a. Some (SVDsimilarity a)))"

subsection \<open>\<open>case T_CreateRStmt\<close>\<close>

definition index_columns :: "recMethod \<Rightarrow> string list" where
  "index_columns meth =
     (if meth = SVD
      then [''systemId'', ''recUserModelName'', ''recItemModelName'', ''recViewName'',
            ''updateCounter'', ''ratingTotal'', ''queryCounter'', ''updateRate'', ''queryRate'',
            ''levelone_timestamp'']
      else [''systemId'', ''recModelName'', ''recViewName'',
            ''updateCounter'', ''ratingTotal'', ''queryCounter'', ''updateRate'', ''queryRate'',
            ''levelone_timestamp''])"

definition catalogue_row :: "CreateRStmt \<Rightarrow> val list" where
  "catalogue_row recStmt =
     [DefaultV, TextV (relation recStmt @ ''Index''), TextV (usertable recStmt),
      TextV (itemtable recStmt), TextV (ratingtable recStmt), TextV (userkey recStmt),
      TextV (itemkey recStmt), TextV (ratingval recStmt), TextV (methodname recStmt),
      IntV (int (numatts recStmt))]"

definition ensureProperties :: "unit io" where
  "ensureProperties s =
     (if \<not> relationExists s ''recathonproperties''
      then seq (recathon_utilityExecute
                  (CreateTable ''RecathonProperties''
                     [''update_threshold'', ''tail_length'', ''verbose_queries'']))
               (recathon_queryExecute
                  (InsertInto ''RecathonProperties'' [RealV ''0.5'', IntV 0, BoolV True])) s
      else ret () s)"

definition createTables :: "CreateRStmt \<Rightarrow> unit io" where
  "createTables recStmt =
     seq (recathon_utilityExecute
            (CreateTableIfNotExists ''RecModelsCatalogue''
               [''recommenderId'', ''recommenderIndexName'', ''userTable'', ''itemTable'',
                ''ratingTable'', ''userKey'', ''itemKey'', ''ratingVal'', ''method'',
                ''contextattributes'']))
    (seq (recathon_queryExecute (InsertInto ''RecModelsCatalogue'' (catalogue_row recStmt)))
    (seq ensureProperties
         (recathon_utilityExecute
            (CreateTable (relation recStmt @ ''Index'')
               (index_columns (recmethod recStmt) @ attributes recStmt)))))"

definition createModels :: "externals \<Rightarrow> CreateRStmt \<Rightarrow> unit io" where
  "createModels ext recStmt =
     (case recmethod recStmt of
        itemCosCF \<Rightarrow> itemSimilarity ext recStmt (recmethod recStmt)
      | itemPearCF \<Rightarrow> itemSimilarity ext recStmt (recmethod recStmt)
      | userCosCF \<Rightarrow> userSimilarity ext recStmt (recmethod recStmt)
      | userPearCF \<Rightarrow> userSimilarity ext recStmt (recmethod recStmt)
      | SVD \<Rightarrow> SVDSimilarity ext recStmt)"

definition CreateRStmt_case :: "externals \<Rightarrow> CreateRStmt \<Rightarrow> unit io" where
  "CreateRStmt_case ext recStmt = seq (createTables recStmt) (createModels ext recStmt)"

subsection \<open>\<open>case T_DropRecStmt\<close>\<close>

record cell_node =
  modelname1 :: "string option"
  modelname2 :: "string option"
  viewname :: "string option"

definition new_cell :: "string \<Rightarrow> slot \<Rightarrow> cell_node" where
  "new_cell meth sl =
     (if meth = ''svd''
      then \<lparr>modelname1 = getTupleString sl ''recusermodelname'',
            modelname2 = getTupleString sl ''recitemmodelname'',
            viewname = getTupleString sl ''recviewname''\<rparr>
      else \<lparr>modelname1 = getTupleString sl ''recmodelname'',
            modelname2 = None,
            viewname = getTupleString sl ''recviewname''\<rparr>)"

text \<open>
  The loop that stores every cell of the index table in the list from \<open>chead\<close> to
  \<open>ctail\<close>. \<open>strcmp(method, "svd")\<close> runs once per slot; with a NULL
  \<open>method\<close> it is the crash.
\<close>

fun storeCells :: "string option \<Rightarrow> slot list \<Rightarrow> error + cell_node list" where
  "storeCells meth [] = Inr []"
| "storeCells meth (sl # sls) =
     (case meth of
        None \<Rightarrow> Inl (CRASH ''method'')
      | Some m \<Rightarrow>
          (case storeCells meth sls of
             Inl e \<Rightarrow> Inl e
           | Inr cs \<Rightarrow> Inr (new_cell m sl # cs)))"

definition dropName :: "string option \<Rightarrow> unit io" where
  "dropName n = (case n of None \<Rightarrow> ret () | Some t \<Rightarrow> recathon_utilityExecute (DropTable t))"

definition dropCell :: "cell_node \<Rightarrow> unit io" where
  "dropCell c = seq (dropName (modelname1 c)) (seq (dropName (modelname2 c)) (dropName (viewname c)))"

definition dropCells :: "string \<Rightarrow> cell_node list \<Rightarrow> unit io" where
  "dropCells recname chead =
     seq (if chead = []
          then emit (WARNING ERRCODE_INVALID_SCHEMA_NAME
                       (''failed to find cells for recommender '' @ recname))
          else ret ())
    (seq (forEach dropCell chead)
    (seq (recathon_utilityExecute (DropTable (recname @ ''index'')))
         (recathon_queryExecute
            (DeleteFrom ''recmodelscatalogue'' ''recommenderindexname''
               (TextV (recname @ ''Index''))))))"

definition DropRecStmt_case :: "string \<Rightarrow> unit io" where
  "DropRecStmt_case relname s =
     (let recname = map tolower relname in
      if \<not> relationExists s ''recmodelscatalogue''
      then raise (ERROR ERRCODE_INVALID_SCHEMA_NAME ''no recommenders have been created'') s
      else if \<not> recommenderExists s recname
      then raise (ERROR ERRCODE_INVALID_SCHEMA_NAME
                    (''recommender '' @ recname @ '' does not exist'')) s
      else bind (recathon_queryStart (SelectAll (recname @ ''index'')))
             (\<lambda>slots. case storeCells (getRecInfo s (recname @ ''Index'')) slots of
                         Inl e \<Rightarrow> raise e
                       | Inr chead \<Rightarrow> dropCells recname chead) s)"

section \<open>What a build and a destroy leave behind\<close>

text \<open>
  The definitions of this section describe the outcome of a run; the lemmas below prove
  that the functions above produce it. \<open>default_properties\<close> is the properties
  table as a build creates it, and \<open>infra_events\<close> the statements of
  \<open>createTables\<close>: the catalogue, its row, the properties table with its row when
  the table was absent, the index table.
\<close>

definition default_properties :: table where
  "default_properties =
     \<lparr>cols = [''update_threshold'', ''tail_length'', ''verbose_queries''],
      rows = [[RealV ''0.5'', IntV 0, BoolV True]]\<rparr>"

definition infra_events :: "CreateRStmt \<Rightarrow> bool \<Rightarrow> event list" where
  "infra_events recStmt props_absent =
     [Utility (CreateTableIfNotExists ''RecModelsCatalogue''
        [''recommenderId'', ''recommenderIndexName'', ''userTable'', ''itemTable'',
         ''ratingTable'', ''userKey'', ''itemKey'', ''ratingVal'', ''method'',
         ''contextattributes'']),
      Execute (InsertInto ''RecModelsCatalogue'' (catalogue_row recStmt))] @
     (if props_absent
      then [Utility (CreateTable ''RecathonProperties''
              [''update_threshold'', ''tail_length'', ''verbose_queries'']),
            Execute (InsertInto ''RecathonProperties'' [RealV ''0.5'', IntV 0, BoolV True])]
      else []) @
     [Utility (CreateTable (relation recStmt @ ''Index'')
        (index_columns (recmethod recStmt) @ attributes recStmt))]"

text \<open>
  What \<open>createModels\<close> chooses by method: the model tables of a cell, the
  precomputation call, the populate call.
\<close>

definition models_of :: "recMethod \<Rightarrow> (string \<times> string list) list" where
  "models_of m =
     (case m of
        itemCosCF \<Rightarrow> [(''Model'', [''item1'', ''item2'', ''similarity''])]
      | itemPearCF \<Rightarrow> [(''Model'', [''item1'', ''item2'', ''similarity''])]
      | userCosCF \<Rightarrow> [(''Model'', [''user1'', ''user2'', ''similarity''])]
      | userPearCF \<Rightarrow> [(''Model'', [''user1'', ''user2'', ''similarity''])]
      | SVD \<Rightarrow> [(''UserModel'', [''users'', ''feature'', ''value'']),
                (''ItemModel'', [''items'', ''feature'', ''value''])])"

definition stats_call :: "CreateRStmt \<Rightarrow> backend_call option" where
  "stats_call recStmt =
     (case recmethod recStmt of
        itemCosCF \<Rightarrow> Some (Vector_lengths (itemtable recStmt) (itemkey recStmt)
                           (ratingtable recStmt) (ratingval recStmt))
      | itemPearCF \<Rightarrow> Some (Pearson_info (itemtable recStmt) (itemkey recStmt)
                            (ratingtable recStmt) (ratingval recStmt))
      | userCosCF \<Rightarrow> Some (Vector_lengths (usertable recStmt) (userkey recStmt)
                           (ratingtable recStmt) (ratingval recStmt))
      | userPearCF \<Rightarrow> Some (Pearson_info (usertable recStmt) (userkey recStmt)
                            (ratingtable recStmt) (ratingval recStmt))
      | SVD \<Rightarrow> None)"

definition populate_call :: "recMethod \<Rightarrow> stats \<Rightarrow> model_args \<Rightarrow> backend_call" where
  "populate_call m st a =
     (case m of
        itemCosCF \<Rightarrow> UpdateItemCosModel a st
      | itemPearCF \<Rightarrow> UpdateItemPearModel a st
      | userCosCF \<Rightarrow> UpdateUserCosModel a st
      | userPearCF \<Rightarrow> UpdateUserPearModel a st
      | SVD \<Rightarrow> SVDsimilarity a)"

definition stats_events :: "CreateRStmt \<Rightarrow> stats \<Rightarrow> event list" where
  "stats_events recStmt st =
     (case stats_call recStmt of None \<Rightarrow> [] | Some sc \<Rightarrow> [Backend sc (Stats st)])"

definition query_events :: "CreateRStmt \<Rightarrow> event list" where
  "query_events recStmt =
     (if attributes recStmt = [] then []
      else [QueryStart (SelectDistinct (attributes recStmt) (usertable recStmt))])"

text \<open>
  A cell that was built: the time its body read from the clock, its attribute values,
  the number its populate call returned. From these follow the tables the body created,
  the arguments of the populate call, the row of the index table and the events of the
  body.
\<close>

record cell_info =
  c_time :: "int \<times> int"
  c_attvalues :: "string list"
  c_ratings :: int

definition cell_tables :: "CreateRStmt \<Rightarrow> (string \<times> string list) list \<Rightarrow> int \<times> int \<Rightarrow> string list" where
  "cell_tables recStmt models ts = model_names recStmt models ts @ [view_name recStmt ts]"

definition cell_args :: "CreateRStmt \<Rightarrow> (string \<times> string list) list \<Rightarrow> string list \<Rightarrow> cell_info \<Rightarrow> model_args" where
  "cell_args recStmt models attnames i =
     \<lparr>m_usertable = usertable recStmt, m_itemtable = itemtable recStmt,
      m_ratingtable = ratingtable recStmt, m_userkey = userkey recStmt,
      m_itemkey = itemkey recStmt, m_ratingval = ratingval recStmt,
      m_modelnames = model_names recStmt models (c_time i),
      m_attnames = attnames, m_attvalues = map Some (c_attvalues i)\<rparr>"

definition cell_row :: "CreateRStmt \<Rightarrow> (string \<times> string list) list \<Rightarrow> cell_info \<Rightarrow> val list" where
  "cell_row recStmt models i =
     index_row (model_names recStmt models (c_time i)) (view_name recStmt (c_time i))
       (c_ratings i) (c_attvalues i)"

definition cell_events ::
  "CreateRStmt \<Rightarrow> (string \<times> string list) list \<Rightarrow> (model_args \<Rightarrow> backend_call) \<Rightarrow>
   string list \<Rightarrow> cell_info \<Rightarrow> event list" where
  "cell_events recStmt models c attnames i =
     map (\<lambda>(n, cs). Utility (CreateTable n cs))
       (zip (model_names recStmt models (c_time i)) (map snd models)) @
     [Utility (CreateTable (view_name recStmt (c_time i))
                 [userkey recStmt, itemkey recStmt, ''recscore'']),
      Execute (InsertInto (view_name recStmt (c_time i)) [IntV (- 1), IntV (- 1), IntV (- 1)]),
      Backend (c (cell_args recStmt models attnames i)) (NumRatings (c_ratings i)),
      Execute (InsertInto (relation recStmt @ ''Index'') (cell_row recStmt models i))]"

text \<open>
  The distinct combinations of the attribute values in the user table \<open>t\<close>, and
  the attribute values the loop reads from them by name (\<open>None\<close> where
  \<open>getTupleString\<close> gives NULL); with no attribute, the one cell without values.
\<close>

definition combinations :: "CreateRStmt \<Rightarrow> table \<Rightarrow> val list list" where
  "combinations recStmt t =
     remdups (map (\<lambda>r. map (field (cols t) r) (map downcase (attributes recStmt))) (rows t))"

definition cells_of :: "CreateRStmt \<Rightarrow> table option \<Rightarrow> string list option list" where
  "cells_of recStmt tu =
     (if attributes recStmt = [] then [Some []]
      else case tu of
             None \<Rightarrow> []
           | Some t \<Rightarrow>
               map (\<lambda>vs. those (map (getTupleString (zip (map downcase (attributes recStmt)) vs))
                                  (attributes recStmt)))
                 (combinations recStmt t))"

text \<open>
  The names of a cell of the destroy list that are not NULL, in the order the loop drops
  them; the list the destroy stores from the index table; and what a destroy that
  succeeds issues.
\<close>

definition cell_names :: "cell_node \<Rightarrow> string list" where
  "cell_names c = List.map_filter id [modelname1 c, modelname2 c, viewname c]"

definition index_cells :: "state \<Rightarrow> string \<Rightarrow> cell_node list" where
  "index_cells s recname =
     (case run_query (SelectAll (recname @ ''index'')) (tables s) of
        Inl e \<Rightarrow> []
      | Inr slots \<Rightarrow>
          (case storeCells (getRecInfo s (recname @ ''Index'')) slots of
             Inl e \<Rightarrow> []
           | Inr chead \<Rightarrow> chead))"

definition destroy_events :: "string \<Rightarrow> cell_node list \<Rightarrow> event list" where
  "destroy_events recname chead =
     QueryStart (SelectAll (recname @ ''index'')) #
     (if chead = []
      then [WARNING ERRCODE_INVALID_SCHEMA_NAME
              (''failed to find cells for recommender '' @ recname)]
      else []) @
     map (\<lambda>n. Utility (DropTable n)) (concat (map cell_names chead)) @
     [Utility (DropTable (recname @ ''index'')),
      Execute (DeleteFrom ''recmodelscatalogue'' ''recommenderindexname''
                 (TextV (recname @ ''Index'')))]"


definition is_precompute :: "event \<Rightarrow> bool" where
  "is_precompute e =
     (case e of
        Backend (Vector_lengths t k r v) res \<Rightarrow> True
      | Backend (Pearson_info t k r v) res \<Rightarrow> True
      | _ \<Rightarrow> False)"

definition stats_passed :: "event \<Rightarrow> stats option" where
  "stats_passed e =
     (case e of
        Backend (UpdateItemCosModel a st) res \<Rightarrow> Some st
      | Backend (UpdateItemPearModel a st) res \<Rightarrow> Some st
      | Backend (UpdateUserCosModel a st) res \<Rightarrow> Some st
      | Backend (UpdateUserPearModel a st) res \<Rightarrow> Some st
      | _ \<Rightarrow> None)"

definition is_drop :: "event \<Rightarrow> bool" where
  "is_drop e = (case e of Utility (DropTable n) \<Rightarrow> True | _ \<Rightarrow> False)"

section \<open>Notions used in the proofs\<close>

text \<open>
  \<open>preserves P m\<close>: whatever \<open>m\<close> returns, it takes a state in which
  \<open>P\<close> holds to one in which \<open>P\<close> holds. \<open>keeps T t\<close>: relation
  \<open>T\<close> is the table \<open>t\<close>. \<open>without ns d\<close>: the database \<open>d\<close>
  after the relations \<open>ns\<close> were dropped. \<open>dropTables\<close>: the drop loop on
  the names of all cells at once.
\<close>

definition preserves :: "(state \<Rightarrow> bool) \<Rightarrow> 'a io \<Rightarrow> bool" where
  "preserves P m = (\<forall>s. P s \<longrightarrow> P (snd (m s)))"

definition keeps :: "string \<Rightarrow> table \<Rightarrow> state \<Rightarrow> bool" where
  "keeps T t s = (tables s T = Some t)"

definition without :: "string list \<Rightarrow> db \<Rightarrow> db" where
  "without ns d = (\<lambda>k. if k \<in> set (map downcase ns) then None else d k)"

definition dropTables :: "string list \<Rightarrow> unit io" where
  "dropTables ns = forEach (\<lambda>n. recathon_utilityExecute (DropTable n)) ns"

text \<open>
  \<open>built ... s infos s'\<close>: the bodies of the cells \<open>infos\<close> ran from
  \<open>s\<close> to \<open>s'\<close>. Each read the clock once, the trace grew by their events,
  the index table by their rows; the tables they created have pairwise distinct names
  that were free in \<open>s\<close>; every other relation of \<open>s\<close> is unchanged; the
  rating count of each cell is what its populate call returned; every attribute value of a
  cell is \<open>printable\<close>.
  \<open>build_result\<close> is the same for the whole of \<open>CreateRStmt_case\<close>, from
  the state before \<open>createTables\<close>.
\<close>

definition built ::
  "externals \<Rightarrow> CreateRStmt \<Rightarrow> (string \<times> string list) list \<Rightarrow> (model_args \<Rightarrow> backend_call) \<Rightarrow>
   string list \<Rightarrow> state \<Rightarrow> cell_info list \<Rightarrow> state \<Rightarrow> bool" where
  "built ext recStmt models c attnames s infos s' \<longleftrightarrow>
     ticks s' = ticks s + length infos \<and>
     map c_time infos = map (gettimeofday ext) [ticks s ..< ticks s + length infos] \<and>
     trace s' = trace s @ concat (map (cell_events recStmt models c attnames) infos) \<and>
     (\<exists>ti. tables s (downcase (relation recStmt @ ''Index'')) = Some ti \<and>
           tables s' (downcase (relation recStmt @ ''Index'')) =
             Some (ti\<lparr>rows := rows ti @ map (cell_row recStmt models) infos\<rparr>)) \<and>
     distinct (map downcase (concat (map (\<lambda>i. cell_tables recStmt models (c_time i)) infos))) \<and>
     (\<forall>n \<in> set (concat (map (\<lambda>i. cell_tables recStmt models (c_time i)) infos)).
         tables s (downcase n) = None \<and> tables s' (downcase n) \<noteq> None) \<and>
     (\<forall>k. tables s k \<noteq> None \<longrightarrow> k \<noteq> downcase (relation recStmt @ ''Index'') \<longrightarrow>
          tables s' k = tables s k) \<and>
     (\<forall>i \<in> set infos. \<exists>d. call_model ext d (c (cell_args recStmt models attnames i)) =
                             Inr (c_ratings i)) \<and>
     (\<forall>i \<in> set infos. list_all printable (c_attvalues i))"

definition build_result ::
  "externals \<Rightarrow> CreateRStmt \<Rightarrow> state \<Rightarrow> stats \<Rightarrow> cell_info list \<Rightarrow> state \<Rightarrow> bool" where
  "build_result ext recStmt s st infos s' \<longleftrightarrow>
     trace s' = trace s @ infra_events recStmt (tables s ''recathonproperties'' = None) @
       stats_events recStmt st @ query_events recStmt @
       concat (map (cell_events recStmt (models_of (recmethod recStmt))
                      (populate_call (recmethod recStmt) st) (attributes recStmt)) infos) \<and>
     tables s' (downcase (relation recStmt @ ''Index'')) =
       Some \<lparr>cols = map downcase (index_columns (recmethod recStmt) @ attributes recStmt),
             rows = map (cell_row recStmt (models_of (recmethod recStmt))) infos\<rparr> \<and>
     distinct (map downcase (concat (map (\<lambda>i. cell_tables recStmt (models_of (recmethod recStmt))
                                             (c_time i)) infos))) \<and>
     (\<forall>n \<in> set (concat (map (\<lambda>i. cell_tables recStmt (models_of (recmethod recStmt))
                                   (c_time i)) infos)).
         tables s (downcase n) = None \<and> tables s' (downcase n) \<noteq> None) \<and>
     tables s (downcase (relation recStmt @ ''Index'')) = None \<and>
     ticks s' = ticks s + length infos \<and>
     map c_time infos = map (gettimeofday ext) [ticks s ..< ticks s + length infos] \<and>
     (\<exists>tu. (tables s (downcase (usertable recStmt)) \<noteq> None \<longrightarrow>
             downcase (usertable recStmt) \<noteq> ''recmodelscatalogue'' \<longrightarrow>
             tu = tables s (downcase (usertable recStmt))) \<and>
           map (\<lambda>i. Some (c_attvalues i)) infos = cells_of recStmt tu) \<and>
     (\<forall>i \<in> set infos. \<exists>d. call_model ext d
         (populate_call (recmethod recStmt) st
            (cell_args recStmt (models_of (recmethod recStmt)) (attributes recStmt) i)) =
         Inr (c_ratings i)) \<and>
     (\<forall>sc. stats_call recStmt = Some sc \<longrightarrow> (\<exists>d. call_stats ext d sc = Inr st)) \<and>
     (\<forall>i \<in> set infos. list_all printable (c_attvalues i))"

section \<open>Concrete inputs\<close>

text \<open>
  A backend that answers every call, a clock whose \<open>n\<close>-th read is
  \<open>(17, n)\<close>, a database holding a user table with three users in two regions,
  two requests, and the empty database.
\<close>

definition example_ext :: externals where
  "example_ext =
     \<lparr>gettimeofday = (\<lambda>n. (17, int n)),
      call_stats = (\<lambda>d c. Inr (Lengths 0 [] [])),
      call_model = (\<lambda>d c. Inr 5)\<rparr>"

definition example_users :: state where
  "example_users =
     \<lparr>tables = [''users'' \<mapsto>
        \<lparr>cols = [''uid'', ''region''],
         rows = [[IntV 1, TextV ''eu''], [IntV 2, TextV ''us''], [IntV 3, TextV ''eu'']]\<rparr>],
      trace = [], ticks = 0\<rparr>"

definition example_foo :: CreateRStmt where
  "example_foo =
     \<lparr>relation = ''foo'', usertable = ''users'', itemtable = ''items'',
      ratingtable = ''ratings'', userkey = ''uid'', itemkey = ''iid'', ratingval = ''rating'',
      methodname = ''itemcoscf'', recmethod = itemCosCF, attributes = [''region'']\<rparr>"

definition example_bar :: CreateRStmt where
  "example_bar =
     \<lparr>relation = ''bar'', usertable = ''users'', itemtable = ''items'',
      ratingtable = ''ratings'', userkey = ''uid'', itemkey = ''iid'', ratingval = ''rating'',
      methodname = ''svd'', recmethod = SVD, attributes = []\<rparr>"

definition example_empty :: state where
  "example_empty = \<lparr>tables = Map.empty, trace = [], ticks = 0\<rparr>"

text \<open>
  The database after \<open>example_foo\<close> has been built on \<open>example_users\<close>: the
  catalogue, the properties, the index table with its two cells, and the model and view
  table of each cell.
\<close>

definition example_built :: state where
  "example_built =
     \<lparr>tables =
        [''users'' \<mapsto>
           \<lparr>cols = [''uid'', ''region''],
            rows = [[IntV 1, TextV ''eu''], [IntV 2, TextV ''us''], [IntV 3, TextV ''eu'']]\<rparr>,
         ''recmodelscatalogue'' \<mapsto>
           \<lparr>cols = [''recommenderid'', ''recommenderindexname'', ''usertable'', ''itemtable'',
                    ''ratingtable'', ''userkey'', ''itemkey'', ''ratingval'', ''method'',
                    ''contextattributes''],
            rows = [[DefaultV, TextV ''fooIndex'', TextV ''users'', TextV ''items'',
                     TextV ''ratings'', TextV ''uid'', TextV ''iid'', TextV ''rating'',
                     TextV ''itemcoscf'', IntV 1]]\<rparr>,
         ''recathonproperties'' \<mapsto> default_properties,
         ''fooindex'' \<mapsto>
           \<lparr>cols = [''systemid'', ''recmodelname'', ''recviewname'', ''updatecounter'',
                    ''ratingtotal'', ''querycounter'', ''updaterate'', ''queryrate'',
                    ''levelone_timestamp'', ''region''],
            rows = [[DefaultV, TextV ''fooModel170'', TextV ''fooView170'', IntV 0, IntV 5,
                     IntV 0, RealV ''0.0'', RealV ''0.0'', LocalTimestampV, TextV ''us''],
                    [DefaultV, TextV ''fooModel171'', TextV ''fooView171'', IntV 0, IntV 5,
                     IntV 0, RealV ''0.0'', RealV ''0.0'', LocalTimestampV, TextV ''eu'']]\<rparr>,
         ''foomodel170'' \<mapsto> \<lparr>cols = [''item1'', ''item2'', ''similarity''], rows = []\<rparr>,
         ''fooview170'' \<mapsto>
           \<lparr>cols = [''uid'', ''iid'', ''recscore''], rows = [[IntV (- 1), IntV (- 1), IntV (- 1)]]\<rparr>,
         ''foomodel171'' \<mapsto> \<lparr>cols = [''item1'', ''item2'', ''similarity''], rows = []\<rparr>,
         ''fooview171'' \<mapsto>
           \<lparr>cols = [''uid'', ''iid'', ''recscore''], rows = [[IntV (- 1), IntV (- 1), IntV (- 1)]]\<rparr>],
      trace = [], ticks = 2\<rparr>"

text \<open>
  The same recommender partially built: the model table of its first cell is missing.
\<close>

definition example_partial :: state where
  "example_partial = example_built\<lparr>tables := (tables example_built)(''foomodel170'' := None)\<rparr>"

text \<open>
A recommender whose index table has no row.
\<close>

definition example_no_cells :: state where
  "example_no_cells =
     \<lparr>tables = [''recmodelscatalogue'' \<mapsto>
                  \<lparr>cols = [''recommenderid'', ''recommenderindexname'', ''method''],
                   rows = [[DefaultV, TextV ''fooIndex'', TextV ''itemcoscf'']]\<rparr>,
                ''fooindex'' \<mapsto>
                  \<lparr>cols = [''systemid'', ''recmodelname'', ''recviewname''], rows = []\<rparr>],
      trace = [], ticks = 0\<rparr>"

section \<open>Lemmas\<close>

lemma downcase_catalogue: "downcase ''RecModelsCatalogue'' = ''recmodelscatalogue''"
  by code_simp

lemma downcase_catalogue_lc: "downcase ''recmodelscatalogue'' = ''recmodelscatalogue''"
  by code_simp

lemma downcase_properties: "downcase ''RecathonProperties'' = ''recathonproperties''"
  by code_simp

lemma downcase_append: "downcase (a @ b) = downcase a @ downcase b"
  by (simp add: downcase_def)

lemma preservesD: "preserves P m \<Longrightarrow> P s \<Longrightarrow> m s = (r, s') \<Longrightarrow> P s'"
  by (auto simp: preserves_def dest: spec[of _ s])

lemma preserves_ret: "preserves P (ret x)"
  by (simp add: preserves_def ret_def)

lemma preserves_raise: "preserves P (raise e)"
  by (simp add: preserves_def raise_def)

lemma preserves_bind:
  assumes "preserves P m" and "\<And>x. preserves P (f x)"
  shows "preserves P (bind m f)"
  unfolding preserves_def
proof (intro allI impI)
  fix s assume "P s"
  with assms(1) have 1: "P (snd (m s))" by (simp add: preserves_def)
  show "P (snd (bind m f s))"
  proof (cases "m s")
    case (Pair r s1)
    with 1 have "P s1" by simp
    with assms(2) have "\<And>x. P (snd (f x s1))" by (simp add: preserves_def)
    with Pair \<open>P s1\<close> show ?thesis by (cases r) (simp_all add: bind_def)
  qed
qed

lemma preserves_seq: "preserves P m \<Longrightarrow> preserves P n \<Longrightarrow> preserves P (seq m n)"
  by (simp add: seq_def preserves_bind)

lemma preserves_forEach:
  assumes "\<And>x. x \<in> set xs \<Longrightarrow> preserves P (f x)"
  shows "preserves P (forEach f xs)"
  using assms
proof (induction xs)
  case Nil
  show ?case by (simp add: preserves_def)
next
  case (Cons x xs)
  have fx: "preserves P (f x)" using Cons.prems by simp
  have rest: "preserves P (forEach f xs)" using Cons by simp
  show ?case
    unfolding preserves_def
  proof (intro allI impI)
    fix s assume "P s"
    with fx have 1: "P (snd (f x s))" by (simp add: preserves_def)
    show "P (snd (forEach f (x # xs) s))"
    proof (cases "f x s")
      case (Pair r s1)
      with 1 have "P s1" by simp
      with rest have "P (snd (forEach f xs s1))" by (simp add: preserves_def)
      with Pair \<open>P s1\<close> show ?thesis by (cases r) simp_all
    qed
  qed
qed

lemma keeps_run_create: "preserves (keeps T t) (run_stmt e (CreateTable n cs))"
  by (auto simp: preserves_def keeps_def run_stmt_def apply_stmt_def)

lemma keeps_run_create_ine: "preserves (keeps T t) (run_stmt e (CreateTableIfNotExists n cs))"
  by (auto simp: preserves_def keeps_def run_stmt_def apply_stmt_def)

lemma keeps_run_insert: "downcase n \<noteq> T \<Longrightarrow> preserves (keeps T t) (run_stmt e (InsertInto n r))"
  by (auto simp: preserves_def keeps_def run_stmt_def apply_stmt_def split: option.splits)

lemma keeps_create_seq:
  assumes "downcase n \<noteq> T \<Longrightarrow> preserves (keeps T t) rest"
  shows "preserves (keeps T t) (seq (recathon_utilityExecute (CreateTable n cs)) rest)"
  unfolding preserves_def
proof (intro allI impI)
  fix s assume k: "keeps T t s"
  show "keeps T t (snd (seq (recathon_utilityExecute (CreateTable n cs)) rest s))"
  proof (cases "tables s (downcase n) = None")
    case True
    with k have "downcase n \<noteq> T" by (auto simp: keeps_def)
    with assms have "preserves (keeps T t) rest" .
    with keeps_run_create[of T t "Utility (CreateTable n cs)" n cs] k show ?thesis
      using preserves_seq[of "keeps T t" "recathon_utilityExecute (CreateTable n cs)" rest]
      by (simp add: preserves_def recathon_utilityExecute_def)
  next
    case False
    with k show ?thesis
      by (auto simp: seq_def bind_def recathon_utilityExecute_def run_stmt_def apply_stmt_def keeps_def)
  qed
qed

lemma keeps_read_clock: "preserves (keeps T t) (read_clock ext)"
  by (simp add: preserves_def keeps_def read_clock_def)

lemma keeps_backend_model: "preserves (keeps T t) (backend_model ext c)"
  by (simp add: preserves_def keeps_def backend_model_def split: sum.splits)

lemma keeps_backend_stats: "preserves (keeps T t) (backend_stats ext c)"
  by (simp add: preserves_def keeps_def backend_stats_def split: sum.splits)

lemma keeps_queryStart: "preserves (keeps T t) (recathon_queryStart q)"
  by (simp add: preserves_def keeps_def recathon_queryStart_def split: sum.splits)

lemma keeps_buildCell:
  assumes "downcase (relation recStmt @ ''Index'') \<noteq> T"
  shows "preserves (keeps T t) (buildCell ext recStmt models call attnames attvalues)"
  unfolding buildCell_def
  apply (rule preserves_bind[OF keeps_read_clock])
  apply (rule preserves_seq)
   apply (rule preserves_forEach)
   apply (clarsimp simp: recathon_utilityExecute_def keeps_run_create)
  apply (rule keeps_create_seq)
  apply (rule preserves_seq)
   apply (simp add: recathon_queryExecute_def keeps_run_insert)
  apply (rule preserves_bind)
   apply (simp add: preserves_ret keeps_backend_model split: option.splits)
  apply (simp add: insertIndexRow_def preserves_raise recathon_queryExecute_def
           keeps_run_insert assms split: option.splits)
  done

lemma keeps_allCells:
  assumes "\<And>an av. preserves (keeps T t) (cell an av)"
  shows "preserves (keeps T t) (allCells recStmt cell)"
  unfolding allCells_def
  by (auto intro!: preserves_bind keeps_queryStart preserves_forEach assms
       simp: slotCell_def preserves_raise split: option.splits)

lemma keeps_createModels:
  assumes "downcase (relation recStmt @ ''Index'') \<noteq> T"
  shows "preserves (keeps T t) (createModels ext recStmt)"
  unfolding createModels_def itemSimilarity_def userSimilarity_def SVDSimilarity_def Let_def
  by (auto split: recMethod.splits
        intro!: preserves_bind keeps_backend_stats keeps_allCells keeps_buildCell assms)

lemma bind_Inr:
  "bind m f s = (Inr y, s') \<longleftrightarrow> (\<exists>x s1. m s = (Inr x, s1) \<and> f x s1 = (Inr y, s'))"
  by (auto simp: bind_def split: prod.splits sum.splits)

lemma seq_Inr:
  "seq m n s = (Inr y, s') \<longleftrightarrow> (\<exists>s1. m s = (Inr (), s1) \<and> n s1 = (Inr y, s'))"
  by (simp add: seq_def bind_Inr)

lemma run_create_Inr:
  "run_stmt e (CreateTable n cs) s = (Inr (), s') \<longleftrightarrow>
     tables s (downcase n) = None \<and>
     s' = s\<lparr>tables := (tables s)(downcase n \<mapsto> \<lparr>cols = map downcase cs, rows = []\<rparr>),
            trace := trace s @ [e]\<rparr>"
  by (auto simp: run_stmt_def apply_stmt_def)

lemma run_insert_Inr:
  "run_stmt e (InsertInto n r) s = (Inr (), s') \<longleftrightarrow>
     (\<exists>t. tables s (downcase n) = Some t \<and>
       s' = s\<lparr>tables := (tables s)(downcase n \<mapsto> t\<lparr>rows := rows t @ [r]\<rparr>),
              trace := trace s @ [e]\<rparr>)"
  by (auto simp: run_stmt_def apply_stmt_def split: option.splits)

lemma keeps_ensureProperties: "preserves (keeps T t) ensureProperties"
proof -
  have "preserves (keeps T t)
          (seq (recathon_utilityExecute
                  (CreateTable ''RecathonProperties''
                     [''update_threshold'', ''tail_length'', ''verbose_queries'']))
               (recathon_queryExecute
                  (InsertInto ''RecathonProperties'' [RealV ''0.5'', IntV 0, BoolV True])))"
    by (rule keeps_create_seq) (simp add: recathon_queryExecute_def keeps_run_insert)
  then show ?thesis
    by (simp add: preserves_def ensureProperties_def ret_def)
qed

lemma keeps_createTables:
  assumes "T \<noteq> ''recmodelscatalogue''"
  shows "preserves (keeps T t) (createTables recStmt)"
  unfolding createTables_def
  using assms
  by (intro preserves_seq keeps_ensureProperties)
     (simp_all add: recathon_utilityExecute_def recathon_queryExecute_def keeps_run_create
        keeps_run_create_ine keeps_run_insert downcase_catalogue)

lemma run_create_ine_Inr:
  "run_stmt e (CreateTableIfNotExists n cs) s = (Inr (), s') \<longleftrightarrow>
     s' = s\<lparr>tables := (if tables s (downcase n) = None
                         then (tables s)(downcase n \<mapsto> \<lparr>cols = map downcase cs, rows = []\<rparr>)
                         else tables s),
            trace := trace s @ [e]\<rparr>"
  by (auto simp: run_stmt_def apply_stmt_def)

lemma downcase_properties_cols:
  "map downcase [''update_threshold'', ''tail_length'', ''verbose_queries''] =
     [''update_threshold'', ''tail_length'', ''verbose_queries'']"
  by code_simp

lemma ensureProperties_Inr:
  assumes "ensureProperties s = (Inr (), s')"
  shows "(\<forall>k. k \<noteq> ''recathonproperties'' \<longrightarrow> tables s' k = tables s k) \<and>
         tables s' ''recathonproperties'' =
           (case tables s ''recathonproperties'' of
              None \<Rightarrow> Some default_properties | Some t \<Rightarrow> Some t) \<and>
         ticks s' = ticks s \<and>
         trace s' = trace s @
           (if tables s ''recathonproperties'' = None
            then [Utility (CreateTable ''RecathonProperties''
                    [''update_threshold'', ''tail_length'', ''verbose_queries'']),
                  Execute (InsertInto ''RecathonProperties'' [RealV ''0.5'', IntV 0, BoolV True])]
            else [])"
proof (cases "tables s ''recathonproperties''")
  case None
  with assms show ?thesis
    by (auto simp: ensureProperties_def relationExists_def seq_Inr recathon_utilityExecute_def
          recathon_queryExecute_def run_create_Inr run_insert_Inr downcase_properties
          default_properties_def downcase_properties_cols simp del: list.map)
next
  case (Some t)
  with assms show ?thesis
    by (auto simp: ensureProperties_def relationExists_def ret_def)
qed

lemma createTables_Inr:
  assumes "createTables recStmt s = (Inr (), s')"
  shows "\<And>k. k \<noteq> ''recmodelscatalogue'' \<Longrightarrow> k \<noteq> ''recathonproperties'' \<Longrightarrow>
              k \<noteq> downcase (relation recStmt @ ''Index'') \<Longrightarrow> tables s' k = tables s k"
    and "tables s' ''recathonproperties'' =
           (case tables s ''recathonproperties'' of
              None \<Rightarrow> Some default_properties | Some t \<Rightarrow> Some t)"
    and "tables s (downcase (relation recStmt @ ''Index'')) = None"
    and "tables s' (downcase (relation recStmt @ ''Index'')) =
           Some \<lparr>cols = map downcase (index_columns (recmethod recStmt) @ attributes recStmt),
                 rows = []\<rparr>"
    and "ticks s' = ticks s"
    and "trace s' = trace s @ infra_events recStmt (tables s ''recathonproperties'' = None)"
    and "downcase (relation recStmt @ ''Index'') \<noteq> ''recathonproperties''"
    and "downcase (relation recStmt @ ''Index'') \<noteq> ''recmodelscatalogue''"
proof -
  from assms obtain s1 s2 s3 where
    a: "recathon_utilityExecute (CreateTableIfNotExists ''RecModelsCatalogue''
               [''recommenderId'', ''recommenderIndexName'', ''userTable'', ''itemTable'',
                ''ratingTable'', ''userKey'', ''itemKey'', ''ratingVal'', ''method'',
                ''contextattributes'']) s = (Inr (), s1)"
    and b: "recathon_queryExecute (InsertInto ''RecModelsCatalogue'' (catalogue_row recStmt)) s1 = (Inr (), s2)"
    and c: "ensureProperties s2 = (Inr (), s3)"
    and d: "recathon_utilityExecute
            (CreateTable (relation recStmt @ ''Index'')
               (index_columns (recmethod recStmt) @ attributes recStmt)) s3 = (Inr (), s')"
    unfolding createTables_def seq_Inr by blast
  let ?idx = "downcase (relation recStmt @ ''Index'')"
  from a b have ab: "\<forall>k. k \<noteq> ''recmodelscatalogue'' \<longrightarrow> tables s2 k = tables s k"
    and ab2: "tables s2 ''recmodelscatalogue'' \<noteq> None"
    and abt: "ticks s2 = ticks s"
    and abtr: "trace s2 = trace s @ [Utility (CreateTableIfNotExists ''RecModelsCatalogue''
        [''recommenderId'', ''recommenderIndexName'', ''userTable'', ''itemTable'',
         ''ratingTable'', ''userKey'', ''itemKey'', ''ratingVal'', ''method'',
         ''contextattributes'']),
      Execute (InsertInto ''RecModelsCatalogue'' (catalogue_row recStmt))]"
    by (auto simp: recathon_utilityExecute_def recathon_queryExecute_def run_create_ine_Inr
          run_insert_Inr downcase_catalogue split: if_splits)
  note c' = ensureProperties_Inr[OF c]
  from d have d': "tables s3 ?idx = None"
    and d'': "s' = s3\<lparr>tables := (tables s3)(?idx \<mapsto>
                \<lparr>cols = map downcase (index_columns (recmethod recStmt) @ attributes recStmt),
                 rows = []\<rparr>),
              trace := trace s3 @ [Utility (CreateTable (relation recStmt @ ''Index'')
                 (index_columns (recmethod recStmt) @ attributes recStmt))]\<rparr>"
    by (simp_all add: recathon_utilityExecute_def run_create_Inr)
  have props: "tables s2 ''recathonproperties'' = tables s ''recathonproperties''"
    using ab by simp
  have idx_props: "?idx \<noteq> ''recathonproperties''"
    using d' c' by (auto split: option.splits)
  have idx_cat: "?idx \<noteq> ''recmodelscatalogue''"
  proof
    assume e: "?idx = ''recmodelscatalogue''"
    from c' have "tables s3 ''recmodelscatalogue'' = tables s2 ''recmodelscatalogue''" by simp
    with ab2 d' e show False by simp
  qed
  show "\<And>k. k \<noteq> ''recmodelscatalogue'' \<Longrightarrow> k \<noteq> ''recathonproperties'' \<Longrightarrow>
              k \<noteq> ?idx \<Longrightarrow> tables s' k = tables s k"
    using ab c' d'' by simp
  show "tables s' ''recathonproperties'' =
           (case tables s ''recathonproperties'' of
              None \<Rightarrow> Some default_properties | Some t \<Rightarrow> Some t)"
    using c' d'' props idx_props by simp
  show "tables s ?idx = None"
    using ab c' d' idx_props idx_cat by simp
  show "tables s' ?idx =
           Some \<lparr>cols = map downcase (index_columns (recmethod recStmt) @ attributes recStmt),
                 rows = []\<rparr>"
    using d'' by simp
  show "ticks s' = ticks s"
    using abt c' d'' by simp
  show "trace s' = trace s @ infra_events recStmt (tables s ''recathonproperties'' = None)"
    using abtr c' d'' props by (simp add: infra_events_def)
  show "?idx \<noteq> ''recathonproperties''" by (rule idx_props)
  show "?idx \<noteq> ''recmodelscatalogue''" by (rule idx_cat)
qed

lemma keeps_CreateRStmt_case:
  assumes "T \<noteq> ''recmodelscatalogue''"
  shows "preserves (keeps T t) (CreateRStmt_case ext recStmt)"
  unfolding preserves_def
proof (intro allI impI)
  fix s assume k: "keeps T t s"
  obtain res sa where ct: "createTables recStmt s = (res, sa)" by (cases "createTables recStmt s")
  from preservesD[OF keeps_createTables[OF assms] k ct] have ka: "keeps T t sa" .
  show "keeps T t (snd (CreateRStmt_case ext recStmt s))"
  proof (cases res)
    case (Inl e)
    with ct ka show ?thesis by (simp add: CreateRStmt_case_def seq_def bind_def)
  next
    case (Inr u)
    with ct have "createTables recStmt s = (Inr (), sa)" by simp
    from createTables_Inr(3)[OF this] k have "downcase (relation recStmt @ ''Index'') \<noteq> T"
      by (auto simp: keeps_def)
    from keeps_createModels[OF this] ka have "keeps T t (snd (createModels ext recStmt sa))"
      by (simp add: preserves_def)
    with ct Inr show ?thesis by (simp add: CreateRStmt_case_def seq_def bind_def)
  qed
qed

lemma of_char_lower: "65 \<le> (of_char c :: nat) \<Longrightarrow> (of_char c :: nat) \<le> 90 \<Longrightarrow>
    (of_char (char_of (of_char c + 32 :: nat)) :: nat) = of_char c + 32"
  by (simp add: of_char_of)

lemma tolower_idem: "tolower (tolower c) = tolower c"
  using of_char_lower[of c] by (auto simp: tolower_def Let_def)

lemma map_tolower_idem: "map (tolower \<circ> tolower) n = map tolower n"
  by (simp add: tolower_idem)

lemma dropCell_dropTables: "dropCell c s = dropTables (cell_names c) s"
  by (cases "modelname1 c"; cases "modelname2 c"; cases "viewname c")
     (auto simp: dropCell_def dropName_def dropTables_def cell_names_def List.map_filter_def
        seq_def bind_def ret_def split: prod.splits sum.splits)

lemma forEach_append:
  "forEach f (xs @ ys) s =
     (case forEach f xs s of (Inl e, s') \<Rightarrow> (Inl e, s') | (Inr u, s') \<Rightarrow> forEach f ys s')"
  by (induction xs arbitrary: s) (auto split: prod.splits sum.splits)

lemma forEach_dropCell: "forEach dropCell cs s = dropTables (concat (map cell_names cs)) s"
proof (induction cs arbitrary: s)
  case Nil
  show ?case by (simp add: dropTables_def)
next
  case (Cons c cs)
  show ?case
    using Cons.IH
    by (simp add: dropCell_dropTables)
       (simp add: dropTables_def forEach_append split: prod.splits sum.splits)
qed

lemma run_drop:
  "run_stmt e (DropTable n) s =
     (Inr (), s\<lparr>tables := (tables s)(downcase n := None), trace := trace s @ [e]\<rparr>)"
proof (cases "tables s (downcase n)")
  case None
  then have "(tables s)(downcase n := None) = tables s" by (auto simp: fun_eq_iff)
  with None show ?thesis by (simp add: run_stmt_def apply_stmt_def)
next
  case (Some y)
  then show ?thesis by (simp add: run_stmt_def apply_stmt_def)
qed

lemma dropTables_run:
  "dropTables ns s =
     (Inr (), s\<lparr>tables := without ns (tables s),
               trace := trace s @ map (\<lambda>n. Utility (DropTable n)) ns\<rparr>)"
proof (induction ns arbitrary: s)
  case Nil
  show ?case by (auto simp: dropTables_def without_def ret_def)
next
  case (Cons n ns)
  let ?s1 = "s\<lparr>tables := (tables s)(downcase n := None),
                trace := trace s @ [Utility (DropTable n)]\<rparr>"
  have w: "without ns ((tables s)(downcase n := None)) = without (n # ns) (tables s)"
    by (auto simp: without_def fun_eq_iff)
  have e1: "dropTables (n # ns) s = dropTables ns ?s1"
    by (simp add: dropTables_def recathon_utilityExecute_def run_drop seq_def bind_def)
  show ?case unfolding e1 Cons.IH[of ?s1] using w by simp
qed

lemma downcase_indexname_col: "downcase ''recommenderindexname'' = ''recommenderindexname''"
  by code_simp

lemma run_delete_Inr:
  "run_stmt e (DeleteFrom n c v) s = (Inr (), s') \<longleftrightarrow>
     (\<exists>t. tables s (downcase n) = Some t \<and> downcase c \<in> set (cols t) \<and>
        s' = s\<lparr>tables := (tables s)(downcase n \<mapsto>
                   t\<lparr>rows := filter (\<lambda>r. map_of (zip (cols t) r) (downcase c) \<noteq> Some v)
                                     (rows t)\<rparr>),
               trace := trace s @ [e]\<rparr>)"
  by (auto simp: run_stmt_def apply_stmt_def split: option.splits)

lemma run_drop_Inr:
  "run_stmt e (DropTable n) s = (Inr (), s') \<longleftrightarrow>
     s' = s\<lparr>tables := (tables s)(downcase n := None), trace := trace s @ [e]\<rparr>"
  by (auto simp: run_drop)

lemma dropCells_Inr:
  assumes "dropCells recname chead s = (Inr (), s')"
  shows "\<exists>t. ((without (concat (map cell_names chead)) (tables s))
                (downcase (recname @ ''index'') := None)) ''recmodelscatalogue'' = Some t \<and>
             tables s' = ((without (concat (map cell_names chead)) (tables s))
                (downcase (recname @ ''index'') := None))
                (''recmodelscatalogue'' \<mapsto>
                   t\<lparr>rows := filter (\<lambda>r. map_of (zip (cols t) r) ''recommenderindexname'' \<noteq>
                                          Some (TextV (recname @ ''Index''))) (rows t)\<rparr>)"
    and "trace s' = trace s @ tl (destroy_events recname chead)"
    and "ticks s' = ticks s"
proof -
  let ?ns = "concat (map cell_names chead)"
  let ?w = "if chead = []
          then emit (WARNING ERRCODE_INVALID_SCHEMA_NAME
                       (''failed to find cells for recommender '' @ recname))
          else ret ()"
  from assms obtain s1 s2 s3 where
    a: "?w s = (Inr (), s1)"
    and b: "forEach dropCell chead s1 = (Inr (), s2)"
    and c: "recathon_utilityExecute (DropTable (recname @ ''index'')) s2 = (Inr (), s3)"
    and d: "recathon_queryExecute
            (DeleteFrom ''recmodelscatalogue'' ''recommenderindexname''
               (TextV (recname @ ''Index''))) s3 = (Inr (), s')"
    unfolding dropCells_def seq_Inr by blast
  from a have s1: "s1 = s\<lparr>trace := trace s @ (if chead = []
      then [WARNING ERRCODE_INVALID_SCHEMA_NAME
              (''failed to find cells for recommender '' @ recname)]
      else [])\<rparr>"
    by (auto simp: emit_def ret_def split: if_splits)
  from b have b': "dropTables ?ns s1 = (Inr (), s2)"
    by (simp add: forEach_dropCell)
  from b' have b'': "s2 = s1\<lparr>tables := without ?ns (tables s1),
                          trace := trace s1 @ map (\<lambda>n. Utility (DropTable n)) ?ns\<rparr>"
    by (simp add: dropTables_run)
  from b'' s1 have s2: "tables s2 = without ?ns (tables s)"
    and t2: "trace s2 = trace s1 @ map (\<lambda>n. Utility (DropTable n)) ?ns"
    and k2: "ticks s2 = ticks s" by simp_all
  from c have s3: "tables s3 = (tables s2)(downcase (recname @ ''index'') := None)"
    and t3: "trace s3 = trace s2 @ [Utility (DropTable (recname @ ''index''))]"
    and k3: "ticks s3 = ticks s2"
    by (simp_all add: recathon_utilityExecute_def run_drop_Inr)
  from d obtain t where t: "tables s3 ''recmodelscatalogue'' = Some t"
    and s4: "s' = s3\<lparr>tables := (tables s3)(''recmodelscatalogue'' \<mapsto>
                   t\<lparr>rows := filter (\<lambda>r. map_of (zip (cols t) r) ''recommenderindexname'' \<noteq>
                                          Some (TextV (recname @ ''Index''))) (rows t)\<rparr>),
               trace := trace s3 @ [Execute (DeleteFrom ''recmodelscatalogue''
                  ''recommenderindexname'' (TextV (recname @ ''Index'')))]\<rparr>"
    by (auto simp: recathon_queryExecute_def run_delete_Inr downcase_catalogue_lc
          downcase_indexname_col)
  from t s4 s3 s2 show "\<exists>t. ((without ?ns (tables s))
                (downcase (recname @ ''index'') := None)) ''recmodelscatalogue'' = Some t \<and>
             tables s' = ((without ?ns (tables s))
                (downcase (recname @ ''index'') := None))
                (''recmodelscatalogue'' \<mapsto>
                   t\<lparr>rows := filter (\<lambda>r. map_of (zip (cols t) r) ''recommenderindexname'' \<noteq>
                                          Some (TextV (recname @ ''Index''))) (rows t)\<rparr>)"
    by (simp del: fun_upd_apply)
  from s4 t3 t2 s1 show "trace s' = trace s @ tl (destroy_events recname chead)"
    by (simp add: destroy_events_def)
  from s4 k3 k2 show "ticks s' = ticks s" by simp
qed

lemma DropRecStmt_case_Inr:
  assumes "DropRecStmt_case relname s = (Inr (), s')"
  shows "relationExists s ''recmodelscatalogue''"
    and "recommenderExists s (map tolower relname)"
    and "dropCells (map tolower relname) (index_cells s (map tolower relname))
           (s\<lparr>trace := trace s @ [QueryStart (SelectAll (map tolower relname @ ''index''))]\<rparr>) =
         (Inr (), s')"
proof -
  from assms show 1: "relationExists s ''recmodelscatalogue''"
    by (auto simp: DropRecStmt_case_def raise_def Let_def split: if_splits)
  from assms show 2: "recommenderExists s (map tolower relname)"
    by (auto simp: DropRecStmt_case_def raise_def Let_def split: if_splits)
  from assms 1 2 show "dropCells (map tolower relname) (index_cells s (map tolower relname))
           (s\<lparr>trace := trace s @ [QueryStart (SelectAll (map tolower relname @ ''index''))]\<rparr>) =
         (Inr (), s')"
    by (auto simp: DropRecStmt_case_def Let_def bind_Inr recathon_queryStart_def index_cells_def
          raise_def split: sum.splits)
qed

lemma downcase_index: "downcase ''index'' = ''index''"
  by code_simp

lemma downcase_lower_index:
  "downcase (map tolower relname @ ''index'') = map tolower relname @ ''index''"
  by (simp add: downcase_append downcase_index) (simp add: downcase_def map_tolower_idem)

lemma index_not_catalogue: "n @ ''index'' \<noteq> ''recmodelscatalogue''"
proof
  assume "n @ ''index'' = ''recmodelscatalogue''"
  then have "last (n @ ''index'') = last ''recmodelscatalogue''" by (rule arg_cong)
  then show False by simp
qed

lemma recommenderExists_filtered:
  assumes "tables s ''recmodelscatalogue'' =
             Some (t\<lparr>rows := filter (\<lambda>r. map_of (zip (cols t) r) ''recommenderindexname'' \<noteq>
                                          Some (TextV (recname @ ''Index''))) (rows t)\<rparr>)"
  shows "\<not> recommenderExists s recname"
  using assms
  by (auto simp: recommenderExists_def list_ex_iff field_def split: option.splits)

lemma recommenderExists_col:
  assumes "recommenderExists s recname"
  shows "\<exists>t. tables s ''recmodelscatalogue'' = Some t \<and> ''recommenderindexname'' \<in> set (cols t)"
proof -
  from assms obtain t r where t: "tables s ''recmodelscatalogue'' = Some t"
    and r: "field (cols t) r ''recommenderindexname'' = TextV (recname @ ''Index'')"
    by (auto simp: recommenderExists_def list_ex_iff split: option.splits)
  from r have "map_of (zip (cols t) r) ''recommenderindexname'' = Some (TextV (recname @ ''Index''))"
    by (auto simp: field_def split: option.splits)
  then have "(''recommenderindexname'', TextV (recname @ ''Index'')) \<in> set (zip (cols t) r)"
    by (rule map_of_SomeD)
  then have "''recommenderindexname'' \<in> set (cols t)" by (rule set_zip_leftD)
  with t show ?thesis by blast
qed

lemma destroy_Inr_facts:
  assumes "DropRecStmt_case relname s = (Inr (), s')"
  shows "\<forall>n \<in> set (concat (map cell_names (index_cells s (map tolower relname)))).
            \<not> relationExists s' (downcase n)"
    and "\<not> relationExists s' (map tolower relname @ ''index'')"
    and "\<not> recommenderExists s' (map tolower relname)"
    and "trace s' = trace s @ destroy_events (map tolower relname)
                                (index_cells s (map tolower relname))"
proof -
  let ?r = "map tolower relname"
  let ?ns = "concat (map cell_names (index_cells s ?r))"
  let ?s1 = "s\<lparr>trace := trace s @ [QueryStart (SelectAll (?r @ ''index''))]\<rparr>"
  note dc = DropRecStmt_case_Inr(3)[OF assms]
  from dropCells_Inr(1)[OF dc] obtain t where
    t: "((without ?ns (tables s)) (?r @ ''index'' := None)) ''recmodelscatalogue'' = Some t"
    and s': "tables s' = ((without ?ns (tables s)) (?r @ ''index'' := None))
                (''recmodelscatalogue'' \<mapsto>
                   t\<lparr>rows := filter (\<lambda>r. map_of (zip (cols t) r) ''recommenderindexname'' \<noteq>
                                          Some (TextV (?r @ ''Index''))) (rows t)\<rparr>)"
    by (auto simp: downcase_lower_index simp del: fun_upd_apply)
  from t have nc: "''recmodelscatalogue'' \<notin> set (map downcase ?ns)"
    by (auto simp: without_def index_not_catalogue split: if_splits)
  show "\<forall>n \<in> set ?ns. \<not> relationExists s' (downcase n)"
  proof
    fix n assume n: "n \<in> set ?ns"
    then have "downcase n \<in> set (map downcase ?ns)" by (simp only: set_map) (rule imageI)
    with nc have "downcase n \<noteq> ''recmodelscatalogue''" by metis
    with n show "\<not> relationExists s' (downcase n)"
      by (simp add: relationExists_def s' without_def)
  qed
  show "\<not> relationExists s' (?r @ ''index'')"
    by (simp add: relationExists_def s' index_not_catalogue)
  show "\<not> recommenderExists s' ?r"
    by (rule recommenderExists_filtered[of _ t]) (simp add: s')
  from dropCells_Inr(2)[OF dc]
  show "trace s' = trace s @ destroy_events ?r (index_cells s ?r)"
    by (simp add: destroy_events_def)
qed

lemma destroy_no_cells:
  assumes cat: "relationExists s ''recmodelscatalogue''"
    and ex: "recommenderExists s (map tolower relname)"
    and idx: "tables s (map tolower relname @ ''index'') = Some t"
    and rows: "rows t = []"
  shows "\<exists>s'. DropRecStmt_case relname s = (Inr (), s') \<and>
           trace s' = trace s @
             [QueryStart (SelectAll (map tolower relname @ ''index'')),
              WARNING ERRCODE_INVALID_SCHEMA_NAME
                (''failed to find cells for recommender '' @ map tolower relname),
              Utility (DropTable (map tolower relname @ ''index'')),
              Execute (DeleteFrom ''recmodelscatalogue'' ''recommenderindexname''
                         (TextV (map tolower relname @ ''Index'')))]"
proof -
  let ?r = "map tolower relname"
  from recommenderExists_col[OF ex] obtain tc where
    tc: "tables s ''recmodelscatalogue'' = Some tc"
    and col: "''recommenderindexname'' \<in> set (cols tc)" by blast
  have q: "run_query (SelectAll (?r @ ''index'')) (tables s) = Inr []"
    using idx rows by (simp add: run_query_def downcase_lower_index)
  have "fst (DropRecStmt_case relname s) = Inr ()"
    using cat ex q idx tc col
    by (simp add: DropRecStmt_case_def Let_def bind_def recathon_queryStart_def dropCells_def
          seq_def emit_def recathon_utilityExecute_def recathon_queryExecute_def run_drop
          run_stmt_def apply_stmt_def downcase_lower_index downcase_catalogue_lc
          downcase_indexname_col index_not_catalogue)
  then obtain s' where d: "DropRecStmt_case relname s = (Inr (), s')"
    by (cases "DropRecStmt_case relname s") auto
  have "index_cells s ?r = []"
    using q by (simp add: index_cells_def)
  with destroy_Inr_facts(4)[OF d] have "trace s' = trace s @
             [QueryStart (SelectAll (?r @ ''index'')),
              WARNING ERRCODE_INVALID_SCHEMA_NAME
                (''failed to find cells for recommender '' @ ?r),
              Utility (DropTable (?r @ ''index'')),
              Execute (DeleteFrom ''recmodelscatalogue'' ''recommenderindexname''
                         (TextV (?r @ ''Index'')))]"
    by (simp add: destroy_events_def)
  with d show ?thesis by blast
qed

lemma built_Nil:
  "tables s (downcase (relation recStmt @ ''Index'')) = Some ti \<Longrightarrow>
   built ext recStmt models c attnames s [] s"
  by (simp add: built_def)

lemma built_Cons:
  assumes 1: "built ext recStmt models c attnames s [i] s1"
    and 2: "built ext recStmt models c attnames s1 infos s'"
  shows "built ext recStmt models c attnames s (i # infos) s'"
proof -
  let ?idx = "downcase (relation recStmt @ ''Index'')"
  let ?N = "\<lambda>is. concat (map (\<lambda>i. cell_tables recStmt models (c_time i)) is)"
  from 1 have t1: "ticks s1 = Suc (ticks s)" and ct1: "c_time i = gettimeofday ext (ticks s)"
    and tr1: "trace s1 = trace s @ cell_events recStmt models c attnames i"
    and d1: "distinct (map downcase (cell_tables recStmt models (c_time i)))"
    and n1: "\<forall>n \<in> set (cell_tables recStmt models (c_time i)).
               tables s (downcase n) = None \<and> tables s1 (downcase n) \<noteq> None"
    and f1: "\<forall>k. tables s k \<noteq> None \<longrightarrow> k \<noteq> ?idx \<longrightarrow> tables s1 k = tables s k"
    and b1: "\<exists>d. call_model ext d (c (cell_args recStmt models attnames i)) = Inr (c_ratings i)"
    and p1: "list_all printable (c_attvalues i)"
    by (auto simp: built_def)
  from 1 obtain ti where ti: "tables s ?idx = Some ti"
    and ti1: "tables s1 ?idx = Some (ti\<lparr>rows := rows ti @ [cell_row recStmt models i]\<rparr>)"
    by (auto simp: built_def)
  from 2 have t2: "ticks s' = ticks s1 + length infos"
    and ct2: "map c_time infos = map (gettimeofday ext) [ticks s1 ..< ticks s1 + length infos]"
    and tr2: "trace s' = trace s1 @ concat (map (cell_events recStmt models c attnames) infos)"
    and d2: "distinct (map downcase (?N infos))"
    and n2: "\<forall>n \<in> set (?N infos). tables s1 (downcase n) = None \<and> tables s' (downcase n) \<noteq> None"
    and f2: "\<forall>k. tables s1 k \<noteq> None \<longrightarrow> k \<noteq> ?idx \<longrightarrow> tables s' k = tables s1 k"
    and b2: "\<forall>i \<in> set infos. \<exists>d. call_model ext d (c (cell_args recStmt models attnames i)) =
                             Inr (c_ratings i)"
    and p2: "\<forall>i \<in> set infos. list_all printable (c_attvalues i)"
    by (auto simp: built_def)
  from 2 ti1 have ti2: "tables s' ?idx =
      Some (ti\<lparr>rows := rows ti @ map (cell_row recStmt models) (i # infos)\<rparr>)"
    by (auto simp: built_def)
  have A: "ticks s' = ticks s + length (i # infos)" using t1 t2 by simp
  have B: "map c_time (i # infos) =
      map (gettimeofday ext) [ticks s ..< ticks s + length (i # infos)]"
  proof -
    have u: "[ticks s ..< ticks s + length (i # infos)] =
        ticks s # [ticks s1 ..< ticks s1 + length infos]"
      unfolding t1 by (simp add: upt_conv_Cons del: upt_Suc)
    show ?thesis unfolding u using ct1 ct2 by (simp del: upt_Suc)
  qed
  have C: "trace s' = trace s @ concat (map (cell_events recStmt models c attnames) (i # infos))"
    using tr1 tr2 by simp
  have s_none: "tables s (downcase n) = None" if "n \<in> set (?N infos)" for n
  proof (rule ccontr)
    assume ne: "tables s (downcase n) \<noteq> None"
    from that n2 have z: "tables s1 (downcase n) = None" by blast
    show False
    proof (cases "downcase n = ?idx")
      case True with ti1 z show False by simp
    next
      case False with f1 ne z show False by simp
    qed
  qed
  have s'_some: "tables s' (downcase n) \<noteq> None" if "n \<in> set (cell_tables recStmt models (c_time i))" for n
  proof -
    from that n1 have a: "tables s (downcase n) = None" and b: "tables s1 (downcase n) \<noteq> None"
      by blast+
    from a ti have "downcase n \<noteq> ?idx" by auto
    with f2 b show ?thesis by simp
  qed
  have disj: "downcase n \<noteq> downcase m"
    if "n \<in> set (cell_tables recStmt models (c_time i))" "m \<in> set (?N infos)" for n m
  proof
    assume "downcase n = downcase m"
    moreover from that(1) n1 have "tables s1 (downcase n) \<noteq> None" by blast
    moreover from that(2) n2 have "tables s1 (downcase m) = None" by blast
    ultimately show False by simp
  qed
  have D: "distinct (map downcase (?N (i # infos)))"
    using d1 d2 disj by (auto simp del: set_concat)
  have E: "\<forall>n \<in> set (?N (i # infos)). tables s (downcase n) = None \<and> tables s' (downcase n) \<noteq> None"
  proof
    fix n assume "n \<in> set (?N (i # infos))"
    then consider "n \<in> set (cell_tables recStmt models (c_time i))" | "n \<in> set (?N infos)"
      by auto
    then show "tables s (downcase n) = None \<and> tables s' (downcase n) \<noteq> None"
    proof cases
      case 1 with n1 s'_some show ?thesis by blast
    next
      case 2 with n2 s_none show ?thesis by blast
    qed
  qed
  have F: "\<forall>k. tables s k \<noteq> None \<longrightarrow> k \<noteq> ?idx \<longrightarrow> tables s' k = tables s k"
    using f1 f2 by simp
  have G: "\<forall>j \<in> set (i # infos). \<exists>d. call_model ext d (c (cell_args recStmt models attnames j)) =
                             Inr (c_ratings j)"
    using b1 b2 by simp
  have H: "\<forall>j \<in> set (i # infos). list_all printable (c_attvalues j)"
    using p1 p2 by simp
  show ?thesis
    unfolding built_def using A B C ti ti2 D E F G H by blast
qed

lemma createAll_Inr:
  assumes "forEach (\<lambda>(n, cs). recathon_utilityExecute (CreateTable n cs)) ncs s = (Inr (), s')"
  shows "distinct (map downcase (map fst ncs))"
    and "\<forall>n \<in> set (map fst ncs). tables s (downcase n) = None \<and> tables s' (downcase n) \<noteq> None"
    and "\<forall>k. k \<notin> set (map downcase (map fst ncs)) \<longrightarrow> tables s' k = tables s k"
    and "trace s' = trace s @ map (\<lambda>(n, cs). Utility (CreateTable n cs)) ncs"
    and "ticks s' = ticks s"
  using assms
proof (induction ncs arbitrary: s)
  case Nil
  {
    case 1 show ?case by simp
  next
    case 2 show ?case by simp
  next
    case 3 then show ?case by simp
  next
    case 4 then show ?case by simp
  next
    case 5 then show ?case by simp
  }
next
  case (Cons p ncs)
  obtain n cs where p: "p = (n, cs)" by (cases p)
  {
    fix s assume a: "forEach (\<lambda>(n, cs). recathon_utilityExecute (CreateTable n cs)) (p # ncs) s = (Inr (), s')"
    let ?s1 = "s\<lparr>tables := (tables s)(downcase n \<mapsto> \<lparr>cols = map downcase cs, rows = []\<rparr>),
                  trace := trace s @ [Utility (CreateTable n cs)]\<rparr>"
    from a p have fresh: "tables s (downcase n) = None"
      and rest: "forEach (\<lambda>(n, cs). recathon_utilityExecute (CreateTable n cs)) ncs ?s1 = (Inr (), s')"
      by (auto simp: recathon_utilityExecute_def run_stmt_def apply_stmt_def
            split: prod.splits sum.splits if_splits)
    note ih = Cons.IH[OF rest]
    have nin: "downcase n \<notin> set (map downcase (map fst ncs))"
    proof
      assume "downcase n \<in> set (map downcase (map fst ncs))"
      then have "downcase n \<in> downcase ` set (map fst ncs)" by (simp only: set_map)
      then obtain m where "m \<in> set (map fst ncs)" "downcase m = downcase n"
        by (elim imageE) simp
      with ih(2) show False by auto
    qed
    have "distinct (map downcase (map fst (p # ncs)))"
      using ih(1) nin p by simp
    moreover have "\<forall>m \<in> set (map fst (p # ncs)).
        tables s (downcase m) = None \<and> tables s' (downcase m) \<noteq> None"
    proof
      fix m assume "m \<in> set (map fst (p # ncs))"
      then consider "m = n" | "m \<in> set (map fst ncs)" using p by auto
      then show "tables s (downcase m) = None \<and> tables s' (downcase m) \<noteq> None"
      proof cases
        case 1
        with ih(3) nin fresh show ?thesis by simp
      next
        case 2
        with ih(2) have "tables ?s1 (downcase m) = None" "tables s' (downcase m) \<noteq> None"
          by blast+
        then show ?thesis by (auto split: if_splits)
      qed
    qed
    moreover have "\<forall>k. k \<notin> set (map downcase (map fst (p # ncs))) \<longrightarrow> tables s' k = tables s k"
      using ih(3) p by auto
    moreover have "trace s' = trace s @ map (\<lambda>(n, cs). Utility (CreateTable n cs)) (p # ncs)"
      using ih(4) p by simp
    moreover have "ticks s' = ticks s"
      using ih(5) by simp
    ultimately have "distinct (map downcase (map fst (p # ncs))) \<and>
      (\<forall>m \<in> set (map fst (p # ncs)). tables s (downcase m) = None \<and> tables s' (downcase m) \<noteq> None) \<and>
      (\<forall>k. k \<notin> set (map downcase (map fst (p # ncs))) \<longrightarrow> tables s' k = tables s k) \<and>
      trace s' = trace s @ map (\<lambda>(n, cs). Utility (CreateTable n cs)) (p # ncs) \<and>
      ticks s' = ticks s" by blast
  } note step = this
  {
    case 1 from step[OF 1] show ?case by blast
  next
    case 2 from step[OF 2] show ?case by blast
  next
    case 3 from step[OF 3] show ?case by blast
  next
    case 4 from step[OF 4] show ?case by blast
  next
    case 5 from step[OF 5] show ?case by blast
  }
qed

lemma those_Some: "those xs = Some ys \<longleftrightarrow> xs = map Some ys"
proof (induction xs arbitrary: ys)
  case Nil
  show ?case by auto
next
  case (Cons x xs)
  show ?case
  proof (cases x)
    case None
    then show ?thesis by auto
  next
    case (Some a)
    have "those (x # xs) = Some ys \<longleftrightarrow> (\<exists>zs. those xs = Some zs \<and> ys = a # zs)"
      using Some by (cases "those xs") auto
    also have "\<dots> \<longleftrightarrow> (\<exists>zs. xs = map Some zs \<and> ys = a # zs)"
      unfolding Cons.IH ..
    also have "\<dots> \<longleftrightarrow> x # xs = map Some ys"
      using Some by (cases ys) auto
    finally show ?thesis .
  qed
qed

lemma backend_model_Inr:
  "backend_model ext c s = (Inr r, s') \<longleftrightarrow>
     call_model ext (tables s) c = Inr r \<and>
     s' = s\<lparr>trace := trace s @ [Backend c (NumRatings r)]\<rparr>"
  by (auto simp: backend_model_def split: sum.splits)

lemma buildCell_built:
  assumes b: "buildCell ext recStmt models (\<lambda>a. Some (c a)) attnames attvalues s = (Inr (), s')"
    and idx: "tables s (downcase (relation recStmt @ ''Index'')) = Some ti"
  shows "\<exists>r vs. those attvalues = Some vs \<and> built ext recStmt models c attnames s
               [\<lparr>c_time = gettimeofday ext (ticks s), c_attvalues = vs, c_ratings = r\<rparr>] s'"
proof -
  let ?ts = "gettimeofday ext (ticks s)"
  let ?s0 = "s\<lparr>ticks := Suc (ticks s)\<rparr>"
  let ?names = "model_names recStmt models ?ts"
  let ?view = "view_name recStmt ?ts"
  let ?idx = "downcase (relation recStmt @ ''Index'')"
  let ?args = "\<lparr>m_usertable = usertable recStmt, m_itemtable = itemtable recStmt,
                      m_ratingtable = ratingtable recStmt, m_userkey = userkey recStmt,
                      m_itemkey = itemkey recStmt, m_ratingval = ratingval recStmt,
                      m_modelnames = ?names,
                      m_attnames = attnames, m_attvalues = attvalues\<rparr>"
  from b obtain s1 s2 s3 s4 r where
    m: "forEach (\<lambda>(n, cs). recathon_utilityExecute (CreateTable n cs))
          (zip ?names (map snd models)) ?s0 = (Inr (), s1)"
    and v: "recathon_utilityExecute
              (CreateTable ?view [userkey recStmt, itemkey recStmt, ''recscore'']) s1 = (Inr (), s2)"
    and vi: "recathon_queryExecute (InsertInto ?view [IntV (- 1), IntV (- 1), IntV (- 1)]) s2 =
               (Inr (), s3)"
    and be: "backend_model ext (c ?args) s3 = (Inr r, s4)"
    and ii0: "insertIndexRow recStmt ?names ?view r attvalues s4 = (Inr (), s')"
    by (auto simp: buildCell_def bind_Inr seq_Inr read_clock_def)
  from ii0 obtain vs where th: "those attvalues = Some vs"
    and pr: "list_all printable vs"
    and ii: "recathon_queryExecute
               (InsertInto (relation recStmt @ ''Index'') (index_row ?names ?view r vs)) s4 =
               (Inr (), s')"
    by (auto simp: insertIndexRow_def raise_def split: option.splits if_splits)
  from th have av: "map Some vs = attvalues" by (simp add: those_Some)
  let ?i = "\<lparr>c_time = ?ts, c_attvalues = vs, c_ratings = r\<rparr>"
  have fstzip: "map fst (zip ?names (map snd models)) = ?names"
    by (simp add: model_names_def map_fst_zip)
  note cm = createAll_Inr[OF m, unfolded fstzip]
  from cm(2) idx have idx_names: "?idx \<notin> set (map downcase ?names)" by auto
  with cm(3) idx have idx1: "tables s1 ?idx = Some ti" by simp
  from v have v_fresh: "tables s1 (downcase ?view) = None"
    and T2: "tables s2 = (tables s1)(downcase ?view \<mapsto>
                \<lparr>cols = map downcase [userkey recStmt, itemkey recStmt, ''recscore''], rows = []\<rparr>)"
    and tr2: "trace s2 = trace s1 @ [Utility (CreateTable ?view
                [userkey recStmt, itemkey recStmt, ''recscore''])]"
    and k2: "ticks s2 = ticks s1"
    by (simp_all add: recathon_utilityExecute_def run_create_Inr)
  from v_fresh idx1 have idx_view: "?idx \<noteq> downcase ?view" by auto
  from vi obtain tv where T3: "tables s3 = (tables s2)(downcase ?view \<mapsto> tv)"
    and tr3: "trace s3 = trace s2 @ [Execute (InsertInto ?view [IntV (- 1), IntV (- 1), IntV (- 1)])]"
    and k3: "ticks s3 = ticks s2"
    by (auto simp: recathon_queryExecute_def run_insert_Inr)
  from be have call: "call_model ext (tables s3) (c ?args) = Inr r"
    and T4: "tables s4 = tables s3"
    and tr4: "trace s4 = trace s3 @ [Backend (c ?args) (NumRatings r)]"
    and k4: "ticks s4 = ticks s3"
    by (simp_all add: backend_model_Inr)
  have idx4: "tables s4 ?idx = Some ti"
    using T4 T3 T2 idx1 idx_view by simp
  from ii idx4 have T5: "tables s' = (tables s4)(?idx \<mapsto>
        ti\<lparr>rows := rows ti @ [index_row ?names ?view r vs]\<rparr>)"
    and tr5: "trace s' = trace s4 @ [Execute (InsertInto (relation recStmt @ ''Index'')
        (index_row ?names ?view r vs))]"
    and k5: "ticks s' = ticks s4"
    by (auto simp: recathon_queryExecute_def run_insert_Inr)
  have A: "ticks s' = ticks s + length [?i]"
    using k5 k4 k3 k2 cm(5) by simp
  have B: "map c_time [?i] = map (gettimeofday ext) [ticks s ..< ticks s + length [?i]]"
    by simp
  have C: "trace s' = trace s @ concat (map (cell_events recStmt models c attnames) [?i])"
    using tr5 tr4 tr3 tr2 cm(4)
    by (simp add: cell_events_def cell_args_def cell_row_def av)
  have D: "tables s' ?idx = Some (ti\<lparr>rows := rows ti @ map (cell_row recStmt models) [?i]\<rparr>)"
    using T5 by (simp add: cell_row_def)
  have view_names: "downcase ?view \<notin> set (map downcase ?names)"
  proof
    assume "downcase ?view \<in> set (map downcase ?names)"
    then have "downcase ?view \<in> downcase ` set ?names" by (simp only: set_map)
    then obtain n where "n \<in> set ?names" "downcase n = downcase ?view"
      by (elim imageE) simp
    with cm(2) v_fresh show False by auto
  qed
  have E: "distinct (map downcase (concat (map (\<lambda>i. cell_tables recStmt models (c_time i)) [?i])))"
    using cm(1) view_names by (simp add: cell_tables_def)
  have F: "\<forall>n \<in> set (concat (map (\<lambda>i. cell_tables recStmt models (c_time i)) [?i])).
         tables s (downcase n) = None \<and> tables s' (downcase n) \<noteq> None"
  proof
    fix n assume "n \<in> set (concat (map (\<lambda>i. cell_tables recStmt models (c_time i)) [?i]))"
    then consider "n \<in> set ?names" | "n = ?view" by (auto simp: cell_tables_def)
    then show "tables s (downcase n) = None \<and> tables s' (downcase n) \<noteq> None"
    proof cases
      case 1
      with cm(2) have a: "tables s (downcase n) = None" and b: "tables s1 (downcase n) \<noteq> None"
        by auto
      from a idx have "downcase n \<noteq> ?idx" by auto
      with b T5 T4 T3 T2 have "tables s' (downcase n) \<noteq> None" by simp
      with a show ?thesis by simp
    next
      case 2
      from v_fresh view_names cm(3) have "tables s (downcase ?view) = None" by simp
      moreover have "tables s' (downcase ?view) \<noteq> None"
        using T5 T4 T3 idx_view by simp
      ultimately show ?thesis using 2 by simp
    qed
  qed
  have G: "\<forall>k. tables s k \<noteq> None \<longrightarrow> k \<noteq> ?idx \<longrightarrow> tables s' k = tables s k"
  proof (intro allI impI)
    fix k assume k: "tables s k \<noteq> None" "k \<noteq> ?idx"
    have kn: "k \<notin> set (map downcase ?names)"
    proof
      assume "k \<in> set (map downcase ?names)"
      then have "k \<in> downcase ` set ?names" by (simp only: set_map)
      then obtain n where "n \<in> set ?names" "k = downcase n" by (elim imageE) simp
      with cm(2) k(1) show False by auto
    qed
    with cm(3) have k1: "tables s1 k = tables s k" by simp
    with v_fresh k(1) have "k \<noteq> downcase ?view" by auto
    with T5 T4 T3 T2 k1 k(2) show "tables s' k = tables s k" by simp
  qed
  have H: "\<forall>i \<in> set [?i]. \<exists>d. call_model ext d (c (cell_args recStmt models attnames i)) =
                             Inr (c_ratings i)"
    using call by (auto simp: cell_args_def av)
  have I: "\<forall>i \<in> set [?i]. list_all printable (c_attvalues i)"
    using pr by simp
  have "built ext recStmt models c attnames s [?i] s'"
    unfolding built_def using A B C idx D E F G H I by blast
  with th show ?thesis by blast
qed

lemma slots_built:
  assumes "forEach (slotCell recStmt (buildCell ext recStmt models (\<lambda>a. Some (c a)))) slots s =
             (Inr (), s')"
    and "tables s (downcase (relation recStmt @ ''Index'')) = Some ti"
  shows "\<exists>infos. built ext recStmt models c (attributes recStmt) s infos s' \<and>
           map (\<lambda>sl. those (map (getTupleString sl) (attributes recStmt))) slots =
             map (\<lambda>i. Some (c_attvalues i)) infos"
  using assms
proof (induction slots arbitrary: s ti)
  case Nil
  then have "built ext recStmt models c (attributes recStmt) s [] s'"
    by (auto intro: built_Nil)
  then show ?case by (intro exI[of _ "[]"]) simp
next
  case (Cons sl slots)
  from Cons.prems(1) obtain s1 where
    a: "slotCell recStmt (buildCell ext recStmt models (\<lambda>a. Some (c a))) sl s = (Inr (), s1)"
    and b: "forEach (slotCell recStmt (buildCell ext recStmt models (\<lambda>a. Some (c a)))) slots s1 =
              (Inr (), s')"
    by (auto split: prod.splits sum.splits)
  from a have bc: "buildCell ext recStmt models (\<lambda>a. Some (c a)) (attributes recStmt)
                     (map (getTupleString sl) (attributes recStmt)) s = (Inr (), s1)"
    by (simp add: slotCell_def)
  from buildCell_built[OF bc Cons.prems(2)] obtain r av where
    av: "those (map (getTupleString sl) (attributes recStmt)) = Some av"
    and one: "built ext recStmt models c (attributes recStmt) s
            [\<lparr>c_time = gettimeofday ext (ticks s), c_attvalues = av, c_ratings = r\<rparr>] s1"
    by blast
  then obtain ti1 where "tables s1 (downcase (relation recStmt @ ''Index'')) = Some ti1"
    by (auto simp: built_def)
  from Cons.IH[OF b this] obtain infos where
    rest: "built ext recStmt models c (attributes recStmt) s1 infos s'"
    and vals: "map (\<lambda>sl. those (map (getTupleString sl) (attributes recStmt))) slots =
             map (\<lambda>i. Some (c_attvalues i)) infos"
    by blast
  let ?i = "\<lparr>c_time = gettimeofday ext (ticks s), c_attvalues = av, c_ratings = r\<rparr>"
  from built_Cons[OF one rest] av vals
  have "built ext recStmt models c (attributes recStmt) s (?i # infos) s' \<and>
           map (\<lambda>sl. those (map (getTupleString sl) (attributes recStmt))) (sl # slots) =
             map (\<lambda>i. Some (c_attvalues i)) (?i # infos)"
    by simp
  then show ?case by blast
qed

lemma allCells_built:
  assumes a: "allCells recStmt (buildCell ext recStmt models (\<lambda>a. Some (c a))) s = (Inr (), s')"
    and idx: "tables s (downcase (relation recStmt @ ''Index'')) = Some ti"
  shows "\<exists>infos. built ext recStmt models c (attributes recStmt)
                   (s\<lparr>trace := trace s @ query_events recStmt\<rparr>) infos s' \<and>
           map (\<lambda>i. Some (c_attvalues i)) infos =
             cells_of recStmt (tables s (downcase (usertable recStmt)))"
proof (cases "attributes recStmt = []")
  case True
  with a have "buildCell ext recStmt models (\<lambda>a. Some (c a)) [] [] s = (Inr (), s')"
    by (simp add: allCells_def numatts_def)
  from buildCell_built[OF this idx] True show ?thesis
    by (auto simp: query_events_def cells_of_def)
next
  case False
  let ?q = "SelectDistinct (attributes recStmt) (usertable recStmt)"
  let ?s1 = "s\<lparr>trace := trace s @ [QueryStart ?q]\<rparr>"
  from a False obtain slots where
    q: "run_query ?q (tables s) = Inr slots"
    and f: "forEach (slotCell recStmt (buildCell ext recStmt models (\<lambda>a. Some (c a)))) slots ?s1 =
              (Inr (), s')"
    by (auto simp: allCells_def numatts_def bind_Inr recathon_queryStart_def split: sum.splits)
  from idx have "tables ?s1 (downcase (relation recStmt @ ''Index'')) = Some ti" by simp
  from slots_built[OF f this] obtain infos where
    b: "built ext recStmt models c (attributes recStmt) ?s1 infos s'"
    and v: "map (\<lambda>sl. those (map (getTupleString sl) (attributes recStmt))) slots =
             map (\<lambda>i. Some (c_attvalues i)) infos"
    by blast
  from q False have "map (\<lambda>sl. those (map (getTupleString sl) (attributes recStmt))) slots =
      cells_of recStmt (tables s (downcase (usertable recStmt)))"
    by (auto simp: run_query_def cells_of_def combinations_def split: option.splits if_splits)
  with b v False show ?thesis
    by (auto simp: query_events_def)
qed

lemma backend_stats_Inr:
  "backend_stats ext c s = (Inr st, s') \<longleftrightarrow>
     call_stats ext (tables s) c = Inr st \<and>
     s' = s\<lparr>trace := trace s @ [Backend c (Stats st)]\<rparr>"
  by (auto simp: backend_stats_def split: sum.splits)

lemma createModels_built:
  assumes a: "createModels ext recStmt s = (Inr (), s')"
    and idx: "tables s (downcase (relation recStmt @ ''Index'')) = Some ti"
  shows "\<exists>st infos.
           built ext recStmt (models_of (recmethod recStmt)) (populate_call (recmethod recStmt) st)
             (attributes recStmt)
             (s\<lparr>trace := trace s @ stats_events recStmt st @ query_events recStmt\<rparr>) infos s' \<and>
           map (\<lambda>i. Some (c_attvalues i)) infos =
             cells_of recStmt (tables s (downcase (usertable recStmt))) \<and>
           (\<forall>sc. stats_call recStmt = Some sc \<longrightarrow> call_stats ext (tables s) sc = Inr st)"
proof -
  have with_stats: ?thesis
    if sc: "stats_call recStmt = Some sc"
      and run: "bind (backend_stats ext sc)
             (\<lambda>st. allCells recStmt
                (buildCell ext recStmt (models_of (recmethod recStmt))
                   (\<lambda>a. Some (populate_call (recmethod recStmt) st a)))) s = (Inr (), s')"
    for sc
  proof -
    from run obtain st where
      cs: "call_stats ext (tables s) sc = Inr st"
      and ac: "allCells recStmt
                (buildCell ext recStmt (models_of (recmethod recStmt))
                   (\<lambda>a. Some (populate_call (recmethod recStmt) st a)))
                (s\<lparr>trace := trace s @ [Backend sc (Stats st)]\<rparr>) = (Inr (), s')"
      by (auto simp: bind_Inr backend_stats_Inr)
    from idx have "tables (s\<lparr>trace := trace s @ [Backend sc (Stats st)]\<rparr>)
        (downcase (relation recStmt @ ''Index'')) = Some ti" by simp
    from allCells_built[OF ac this] sc cs show ?thesis
      by (auto simp: stats_events_def)
  qed
  show ?thesis
  proof (cases "recmethod recStmt")
    case itemCosCF
    with a show ?thesis
      by (intro with_stats)
         (simp_all add: createModels_def itemSimilarity_def stats_call_def models_of_def
            populate_call_def)
  next
    case itemPearCF
    with a show ?thesis
      by (intro with_stats)
         (simp_all add: createModels_def itemSimilarity_def stats_call_def models_of_def
            populate_call_def)
  next
    case userCosCF
    with a show ?thesis
      by (intro with_stats)
         (simp_all add: createModels_def userSimilarity_def stats_call_def models_of_def
            populate_call_def)
  next
    case userPearCF
    with a show ?thesis
      by (intro with_stats)
         (simp_all add: createModels_def userSimilarity_def stats_call_def models_of_def
            populate_call_def)
  next
    case SVD
    with a have ac: "allCells recStmt
                (buildCell ext recStmt (models_of (recmethod recStmt))
                   (\<lambda>a. Some (populate_call (recmethod recStmt) (Lengths 0 [] []) a))) s =
                (Inr (), s')"
      by (simp add: createModels_def SVDSimilarity_def models_of_def populate_call_def)
    from allCells_built[OF ac idx] SVD show ?thesis
      by (auto simp: stats_events_def stats_call_def)
  qed
qed

lemma CreateRStmt_case_result:
  assumes "CreateRStmt_case ext recStmt s = (Inr (), s')"
  shows "\<exists>st infos. build_result ext recStmt s st infos s'"
proof -
  let ?idx = "downcase (relation recStmt @ ''Index'')"
  let ?m = "recmethod recStmt"
  from assms obtain s1 where ct: "createTables recStmt s = (Inr (), s1)"
    and cm: "createModels ext recStmt s1 = (Inr (), s')"
    by (auto simp: CreateRStmt_case_def seq_Inr)
  note f = createTables_Inr[OF ct]
  from createModels_built[OF cm f(4)] obtain st infos where
    b: "built ext recStmt (models_of ?m) (populate_call ?m st) (attributes recStmt)
             (s1\<lparr>trace := trace s1 @ stats_events recStmt st @ query_events recStmt\<rparr>) infos s'"
    and v: "map (\<lambda>i. Some (c_attvalues i)) infos =
             cells_of recStmt (tables s1 (downcase (usertable recStmt)))"
    and cs: "\<forall>sc. stats_call recStmt = Some sc \<longrightarrow> call_stats ext (tables s1) sc = Inr st"
    by blast
  let ?N = "concat (map (\<lambda>i. cell_tables recStmt (models_of ?m) (c_time i)) infos)"
  have keep: "tables s1 k = tables s k" if "tables s k \<noteq> None" "k \<noteq> ''recmodelscatalogue''" for k
  proof -
    from that obtain t where t: "keeps k t s" by (auto simp: keeps_def)
    from preservesD[OF keeps_createTables[OF that(2)] t ct] t show ?thesis
      by (simp add: keeps_def)
  qed
  have none: "tables s k = None" if "tables s1 k = None" for k
  proof (rule ccontr)
    assume ne: "tables s k \<noteq> None"
    show False
    proof (cases "k = ''recmodelscatalogue''")
      case True
      from ct have "relationExists s1 ''recmodelscatalogue''"
        by (auto simp: createTables_def seq_Inr recathon_utilityExecute_def
              recathon_queryExecute_def run_create_ine_Inr run_insert_Inr run_create_Inr
              relationExists_def downcase_catalogue
              dest!: ensureProperties_Inr split: if_splits)
      with True that show False by (simp add: relationExists_def)
    next
      case False
      with keep[OF ne] ne that show False by simp
    qed
  qed
  have R1: "trace s' = trace s @ infra_events recStmt (tables s ''recathonproperties'' = None) @
       stats_events recStmt st @ query_events recStmt @
       concat (map (cell_events recStmt (models_of ?m) (populate_call ?m st)
                      (attributes recStmt)) infos)"
    using b f(6) by (simp add: built_def)
  have R2: "tables s' ?idx =
       Some \<lparr>cols = map downcase (index_columns ?m @ attributes recStmt),
             rows = map (cell_row recStmt (models_of ?m)) infos\<rparr>"
    using b f(4) by (auto simp: built_def)
  have R3: "distinct (map downcase ?N)"
    using b by (simp add: built_def)
  have R4: "\<forall>n \<in> set ?N. tables s (downcase n) = None \<and> tables s' (downcase n) \<noteq> None"
  proof
    fix n assume "n \<in> set ?N"
    with b have "tables s1 (downcase n) = None \<and> tables s' (downcase n) \<noteq> None"
      unfolding built_def by auto
    with none show "tables s (downcase n) = None \<and> tables s' (downcase n) \<noteq> None" by blast
  qed
  have R5: "ticks s' = ticks s + length infos"
    using b f(5) by (simp add: built_def)
  have R6: "map c_time infos = map (gettimeofday ext) [ticks s ..< ticks s + length infos]"
    using b f(5) by (simp add: built_def)
  have R7: "\<exists>tu. (tables s (downcase (usertable recStmt)) \<noteq> None \<longrightarrow>
             downcase (usertable recStmt) \<noteq> ''recmodelscatalogue'' \<longrightarrow>
             tu = tables s (downcase (usertable recStmt))) \<and>
           map (\<lambda>i. Some (c_attvalues i)) infos = cells_of recStmt tu"
    using v keep by (intro exI[of _ "tables s1 (downcase (usertable recStmt))"]) simp
  have R8: "\<forall>i \<in> set infos. \<exists>d. call_model ext d
         (populate_call ?m st (cell_args recStmt (models_of ?m) (attributes recStmt) i)) =
         Inr (c_ratings i)"
    using b by (simp add: built_def)
  have R9: "\<forall>sc. stats_call recStmt = Some sc \<longrightarrow> (\<exists>d. call_stats ext d sc = Inr st)"
    using cs by blast
  have R10: "\<forall>i \<in> set infos. list_all printable (c_attvalues i)"
    using b by (simp add: built_def)
  have "build_result ext recStmt s st infos s'"
    unfolding build_result_def using R1 R2 R3 R4 f(3) R5 R6 R7 R8 R9 R10 by blast
  then show ?thesis by blast
qed

lemma build_result_parts:
  assumes "build_result ext recStmt s st infos s'"
  shows "trace s' = trace s @ infra_events recStmt (tables s ''recathonproperties'' = None) @
       stats_events recStmt st @ query_events recStmt @
       concat (map (cell_events recStmt (models_of (recmethod recStmt))
                      (populate_call (recmethod recStmt) st) (attributes recStmt)) infos)"
    and "tables s' (downcase (relation recStmt @ ''Index'')) =
       Some \<lparr>cols = map downcase (index_columns (recmethod recStmt) @ attributes recStmt),
             rows = map (cell_row recStmt (models_of (recmethod recStmt))) infos\<rparr>"
    and "distinct (map downcase (concat (map (\<lambda>i. cell_tables recStmt (models_of (recmethod recStmt))
                                             (c_time i)) infos)))"
    and "\<forall>n \<in> set (concat (map (\<lambda>i. cell_tables recStmt (models_of (recmethod recStmt))
                                   (c_time i)) infos)).
         tables s (downcase n) = None \<and> tables s' (downcase n) \<noteq> None"
    and "tables s (downcase (relation recStmt @ ''Index'')) = None"
    and "ticks s' = ticks s + length infos"
    and "map c_time infos = map (gettimeofday ext) [ticks s ..< ticks s + length infos]"
    and "\<exists>tu. (tables s (downcase (usertable recStmt)) \<noteq> None \<longrightarrow>
             downcase (usertable recStmt) \<noteq> ''recmodelscatalogue'' \<longrightarrow>
             tu = tables s (downcase (usertable recStmt))) \<and>
           map (\<lambda>i. Some (c_attvalues i)) infos = cells_of recStmt tu"
    and "\<forall>i \<in> set infos. \<exists>d. call_model ext d
         (populate_call (recmethod recStmt) st
            (cell_args recStmt (models_of (recmethod recStmt)) (attributes recStmt) i)) =
         Inr (c_ratings i)"
    and "\<forall>sc. stats_call recStmt = Some sc \<longrightarrow> (\<exists>d. call_stats ext d sc = Inr st)"
    and "\<forall>i \<in> set infos. list_all printable (c_attvalues i)"
  using assms unfolding build_result_def by blast+

lemma distinct_views:
  assumes "distinct (concat (map (\<lambda>i. cell_tables recStmt models (c_time i)) infos))"
  shows "distinct (map (\<lambda>i. view_name recStmt (c_time i)) infos)"
  using assms
proof (induction infos)
  case Nil
  show ?case by simp
next
  case (Cons i infos)
  have "view_name recStmt (c_time i) \<notin> (\<lambda>i. view_name recStmt (c_time i)) ` set infos"
  proof
    assume "view_name recStmt (c_time i) \<in> (\<lambda>i. view_name recStmt (c_time i)) ` set infos"
    then obtain j where j: "j \<in> set infos" "view_name recStmt (c_time j) = view_name recStmt (c_time i)"
      by (elim imageE) simp
    then have "view_name recStmt (c_time i) \<in>
        set (concat (map (\<lambda>i. cell_tables recStmt models (c_time i)) infos))"
      by (auto simp: cell_tables_def intro!: bexI[of _ j])
    moreover have "view_name recStmt (c_time i) \<in> set (cell_tables recStmt models (c_time i))"
      by (simp add: cell_tables_def)
    ultimately show False using Cons.prems by auto
  qed
  with Cons show ?case by simp
qed

lemma distinct_times:
  assumes "distinct (concat (map (\<lambda>i. cell_tables recStmt models (c_time i)) infos))"
  shows "distinct (map c_time infos)"
proof -
  from distinct_views[OF assms]
  have "distinct (map (view_name recStmt) (map c_time infos))"
    by (simp only: map_map comp_def)
  then show ?thesis
    using distinct_map[of "view_name recStmt" "map c_time infos"] by blast
qed

lemma distinct_downcase: "distinct (map downcase ns) \<Longrightarrow> distinct ns"
  by (simp add: distinct_map)








lemma map_eq_list_all2:
  "map f xs = map g ys \<longleftrightarrow> list_all2 (\<lambda>x y. f x = g y) xs ys"
  by (auto simp: list_all2_conv_all_nth list_eq_iff_nth_eq)

lemma cell_events_no_precompute:
  assumes "e \<in> set (cell_events recStmt (models_of m) (populate_call m st) attnames i)"
  shows "\<not> is_precompute e"
    and "e = Backend c r \<Longrightarrow> stats_passed e = (if m = SVD then None else Some st)"
  using assms
  by (cases m; auto simp: cell_events_def is_precompute_def stats_passed_def populate_call_def)+

lemma query_events_no_precompute:
  assumes "e \<in> set (query_events recStmt)"
  shows "\<not> is_precompute e" and "e \<noteq> Backend c r"
  using assms
  by (auto simp: query_events_def is_precompute_def split: if_splits)

lemma infra_events_no_backend:
  assumes "e \<in> set (infra_events recStmt b)"
  shows "\<not> is_precompute e" and "stats_passed e = None"
  using assms
  by (auto simp: infra_events_def is_precompute_def stats_passed_def split: if_splits)

lemma storeCells_Some: "storeCells (Some m) slots = Inr (map (new_cell m) slots)"
  by (induction slots) simp_all

lemma getTupleString_zip_map:
  assumes "getTupleString (zip cs (map f cs)) c = Some n"
  shows "c \<in> set cs \<and> textual (f c) = Some n"
  using assms
  by (auto simp: getTupleString_def map_of_zip_map split: option.splits if_splits)

lemma new_cell_names:
  assumes "n \<in> set (cell_names (new_cell m sl))"
  shows "\<exists>c. c \<in> set [''recmodelname'', ''recusermodelname'', ''recitemmodelname'', ''recviewname''] \<and>
             getTupleString sl c = Some n"
  using assms
  by (auto simp: cell_names_def new_cell_def List.map_filter_def split: if_splits)

lemma index_cells_names:
  assumes "n \<in> set (concat (map cell_names (index_cells d (map tolower relname))))"
  shows "\<exists>t r c. tables d (map tolower relname @ ''index'') = Some t \<and> r \<in> set (rows t) \<and>
           c \<in> set [''recmodelname'', ''recusermodelname'', ''recitemmodelname'', ''recviewname''] \<and>
           c \<in> set (cols t) \<and> textual (field (cols t) r c) = Some n"
proof -
  let ?r = "map tolower relname"
  from assms have ne: "index_cells d ?r \<noteq> []" by auto
  then obtain slots where q: "run_query (SelectAll (?r @ ''index'')) (tables d) = Inr slots"
    and st: "storeCells (getRecInfo d (?r @ ''Index'')) slots = Inr (index_cells d ?r)"
    by (auto simp: index_cells_def split: sum.splits)
  from q obtain t where t: "tables d (?r @ ''index'') = Some t"
    and slots: "slots = map (\<lambda>r. zip (cols t) (map (field (cols t) r) (cols t))) (rows t)"
    by (auto simp: run_query_def downcase_lower_index split: option.splits)
  from st ne obtain m where "getRecInfo d (?r @ ''Index'') = Some m"
    by (cases "getRecInfo d (?r @ ''Index'')"; cases slots) auto
  with st have cells: "index_cells d ?r = map (new_cell m) slots"
    by (simp add: storeCells_Some)
  from assms cells slots obtain r where r: "r \<in> set (rows t)"
    and n: "n \<in> set (cell_names (new_cell m (zip (cols t) (map (field (cols t) r) (cols t)))))"
    by auto
  from new_cell_names[OF n] obtain c where
    c: "c \<in> set [''recmodelname'', ''recusermodelname'', ''recitemmodelname'', ''recviewname'']"
    and g: "getTupleString (zip (cols t) (map (field (cols t) r) (cols t))) c = Some n"
    by blast
  from getTupleString_zip_map[OF g] t r c show ?thesis by blast
qed

lemma is_drop_destroy_events:
  "filter is_drop (destroy_events recname chead) =
     map (\<lambda>n. Utility (DropTable n)) (concat (map cell_names chead)) @
     [Utility (DropTable (recname @ ''index''))]"
proof -
  have "filter is_drop (map (\<lambda>n. Utility (DropTable n)) ns) = map (\<lambda>n. Utility (DropTable n)) ns"
    for ns
    by (induction ns) (simp_all add: is_drop_def)
  then show ?thesis
    by (simp add: destroy_events_def is_drop_def)
qed

lemma example_build:
  "CreateRStmt_case example_ext example_foo example_users =
     (Inr (), snd (CreateRStmt_case example_ext example_foo example_users))"
proof -
  have "fst (CreateRStmt_case example_ext example_foo example_users) = Inr ()"
    by code_simp
  then show ?thesis by (simp add: prod_eq_iff)
qed


lemma example_same_time_fails:
  "fst (CreateRStmt_case (example_ext\<lparr>gettimeofday := \<lambda>n. (17, 0)\<rparr>) example_foo example_users) =
     Inl (ERROR ERRCODE_DUPLICATE_TABLE ''foomodel170'')"
  by code_simp

section \<open>The claims\<close>

text \<open>
  C1. In a build that succeeds, the model and view names of all cells, as stored in the
  index table, are pairwise distinct. Nothing in the C code compares names: each name
  goes into a plain CREATE TABLE, which fails when the relation exists, so a build in
  which two names collide does not succeed. Hence every name of a successful build was
  the name of no relation before and is the name of a relation after, and no two cells
  of it read the same time from the clock.
\<close>

theorem cell_names_pairwise_distinct:
  assumes "CreateRStmt_case ext recStmt s = (Inr (), s')"
  shows "\<exists>infos :: cell_info list.
           tables s' (downcase (relation recStmt @ ''Index'')) =
             Some \<lparr>cols = map downcase (index_columns (recmethod recStmt) @ attributes recStmt),
                   rows = map (\<lambda>i. index_row
                                 (model_names recStmt (models_of (recmethod recStmt)) (c_time i))
                                 (view_name recStmt (c_time i)) (c_ratings i) (c_attvalues i))
                            infos\<rparr> \<and>
           distinct (concat (map (\<lambda>i. model_names recStmt (models_of (recmethod recStmt)) (c_time i) @
                                       [view_name recStmt (c_time i)]) infos)) \<and>
           (\<forall>n \<in> set (concat (map (\<lambda>i. model_names recStmt (models_of (recmethod recStmt))
                                          (c_time i) @ [view_name recStmt (c_time i)]) infos)).
              \<not> relationExists s (downcase n) \<and> relationExists s' (downcase n)) \<and>
           distinct (map c_time infos)"
proof -
  from CreateRStmt_case_result[OF assms] obtain st infos where
    r: "build_result ext recStmt s st infos s'" by blast
  note p = build_result_parts[OF r]
  let ?N = "concat (map (\<lambda>i. cell_tables recStmt (models_of (recmethod recStmt)) (c_time i)) infos)"
  from p(3) have d: "distinct ?N" by (rule distinct_downcase)
  from p(4) have f: "\<forall>n \<in> set ?N. \<not> relationExists s (downcase n) \<and> relationExists s' (downcase n)"
    by (simp add: relationExists_def)
  show ?thesis
  proof (intro exI[of _ infos] conjI)
    show "tables s' (downcase (relation recStmt @ ''Index'')) =
             Some \<lparr>cols = map downcase (index_columns (recmethod recStmt) @ attributes recStmt),
                   rows = map (\<lambda>i. index_row
                                 (model_names recStmt (models_of (recmethod recStmt)) (c_time i))
                                 (view_name recStmt (c_time i)) (c_ratings i) (c_attvalues i))
                            infos\<rparr>"
      using p(2) by (simp add: cell_row_def)
    show "distinct (concat (map (\<lambda>i. model_names recStmt (models_of (recmethod recStmt)) (c_time i) @
                                       [view_name recStmt (c_time i)]) infos))"
      using d by (simp add: cell_tables_def)
    show "\<forall>n \<in> set (concat (map (\<lambda>i. model_names recStmt (models_of (recmethod recStmt))
                                          (c_time i) @ [view_name recStmt (c_time i)]) infos)).
              \<not> relationExists s (downcase n) \<and> relationExists s' (downcase n)"
      using f by (simp add: cell_tables_def)
    show "distinct (map c_time infos)"
      by (rule distinct_times[OF d])
  qed
qed

theorem cell_names_pairwise_distinct_witness:
  "\<exists>infos :: cell_info list.
     tables (snd (CreateRStmt_case example_ext example_foo example_users))
       (downcase (relation example_foo @ ''Index'')) =
       Some \<lparr>cols = map downcase (index_columns (recmethod example_foo) @ attributes example_foo),
             rows = map (\<lambda>i. index_row
                           (model_names example_foo (models_of (recmethod example_foo)) (c_time i))
                           (view_name example_foo (c_time i)) (c_ratings i) (c_attvalues i))
                      infos\<rparr> \<and>
     distinct (concat (map (\<lambda>i. model_names example_foo (models_of (recmethod example_foo))
                                 (c_time i) @ [view_name example_foo (c_time i)]) infos)) \<and>
     (\<forall>n \<in> set (concat (map (\<lambda>i. model_names example_foo (models_of (recmethod example_foo))
                                    (c_time i) @ [view_name example_foo (c_time i)]) infos)).
        \<not> relationExists example_users (downcase n) \<and>
        relationExists (snd (CreateRStmt_case example_ext example_foo example_users))
          (downcase n)) \<and>
     distinct (map c_time infos)"
  by (rule cell_names_pairwise_distinct[OF example_build])

text \<open>
  C2. The drops of the destroy are independent of one another. The loop over the cells
  issues one \<open>drop table\<close> for every name that is not NULL, in the order of the index
  table, whichever of these tables exist: a drop that the engine refuses because the
  table is missing does not stop the loop, and after the loop none of the named tables
  exists. So the destroy of a recommender of which some model or view tables are
  missing still succeeds: it issues every drop, drops the index table and deletes the
  row of the recommender-list table.
\<close>

theorem destroy_drops_are_best_effort:
  assumes "relationExists s ''recmodelscatalogue''"
    and "recommenderExists s (map tolower relname)"
    and "index_cells s (map tolower relname) \<noteq> []"
    and "''recmodelscatalogue'' \<notin>
           set (map downcase (concat (map cell_names (index_cells s (map tolower relname)))))"
  shows "forEach dropCell chead s0 =
           (Inr (), s0\<lparr>tables := without (concat (map cell_names chead)) (tables s0),
                      trace := trace s0 @
                        map (\<lambda>n. Utility (DropTable n)) (concat (map cell_names chead))\<rparr>) \<and>
         (\<exists>s'. DropRecStmt_case relname s = (Inr (), s') \<and>
            trace s' = trace s @ destroy_events (map tolower relname)
                                   (index_cells s (map tolower relname)) \<and>
            (\<forall>n \<in> set (concat (map cell_names (index_cells s (map tolower relname)))).
               \<not> relationExists s' (downcase n)) \<and>
            \<not> relationExists s' (map tolower relname @ ''index'') \<and>
            \<not> recommenderExists s' (map tolower relname))"
proof -
  let ?r = "map tolower relname"
  let ?cells = "index_cells s ?r"
  let ?ns = "concat (map cell_names ?cells)"
  let ?s1 = "s\<lparr>trace := trace s @ [QueryStart (SelectAll (?r @ ''index''))]\<rparr>"
  have loop: "forEach dropCell chead s0 =
           (Inr (), s0\<lparr>tables := without (concat (map cell_names chead)) (tables s0),
                      trace := trace s0 @
                        map (\<lambda>n. Utility (DropTable n)) (concat (map cell_names chead))\<rparr>)"
    for chead s0
    by (simp add: forEach_dropCell dropTables_run)
  from assms(3) obtain slots where q: "run_query (SelectAll (?r @ ''index'')) (tables s) = Inr slots"
    by (auto simp: index_cells_def split: sum.splits)
  with assms(3) have st: "storeCells (getRecInfo s (?r @ ''Index'')) slots = Inr ?cells"
    by (auto simp: index_cells_def split: sum.splits)
  have 1: "DropRecStmt_case relname s = dropCells ?r ?cells ?s1"
    using assms(1,2) q st
    by (simp add: DropRecStmt_case_def Let_def bind_def recathon_queryStart_def)
  from recommenderExists_col[OF assms(2)] obtain tc where
    tc: "tables s ''recmodelscatalogue'' = Some tc"
    and col: "''recommenderindexname'' \<in> set (cols tc)" by blast
  from assms(4) have w: "without ?ns (tables s) ''recmodelscatalogue'' = Some tc"
    using tc by (simp add: without_def)
  have "fst (dropCells ?r ?cells ?s1) = Inr ()"
    using assms(3) w col
    by (simp add: dropCells_def seq_def bind_def ret_def loop recathon_utilityExecute_def
          recathon_queryExecute_def run_drop run_stmt_def apply_stmt_def downcase_lower_index
          downcase_catalogue_lc downcase_indexname_col index_not_catalogue)
  with 1 have "fst (DropRecStmt_case relname s) = Inr ()" by simp
  then obtain s' where d: "DropRecStmt_case relname s = (Inr (), s')"
    by (cases "DropRecStmt_case relname s") auto
  from d destroy_Inr_facts[OF d] loop show ?thesis by blast
qed

theorem destroy_drops_are_best_effort_witness:
  "apply_stmt (DropTable ''fooModel170'') (tables example_partial) =
     Inl (ERROR ERRCODE_UNDEFINED_TABLE ''foomodel170'') \<and>
   fst (DropRecStmt_case ''Foo'' example_partial) = Inr () \<and>
   trace (snd (DropRecStmt_case ''Foo'' example_partial)) =
     [QueryStart (SelectAll ''fooindex''),
      Utility (DropTable ''fooModel170''), Utility (DropTable ''fooView170''),
      Utility (DropTable ''fooModel171''), Utility (DropTable ''fooView171''),
      Utility (DropTable ''fooindex''),
      Execute (DeleteFrom ''recmodelscatalogue'' ''recommenderindexname'' (TextV ''fooIndex''))] \<and>
   \<not> relationExists (snd (DropRecStmt_case ''Foo'' example_partial)) ''fooview170'' \<and>
   \<not> relationExists (snd (DropRecStmt_case ''Foo'' example_partial)) ''foomodel171'' \<and>
   \<not> relationExists (snd (DropRecStmt_case ''Foo'' example_partial)) ''fooindex'' \<and>
   \<not> recommenderExists (snd (DropRecStmt_case ''Foo'' example_partial)) ''foo''"
proof -
  have l: "map tolower ''Foo'' = ''foo''" by code_simp
  have c: "index_cells example_partial ''foo'' =
      [\<lparr>modelname1 = Some ''fooModel170'', modelname2 = None, viewname = Some ''fooView170''\<rparr>,
       \<lparr>modelname1 = Some ''fooModel171'', modelname2 = None, viewname = Some ''fooView171''\<rparr>]"
    by code_simp
  have d: "downcase ''fooModel170'' = ''foomodel170''" "downcase ''fooView170'' = ''fooview170''"
    "downcase ''fooModel171'' = ''foomodel171''" "downcase ''fooView171'' = ''fooview171''"
    by code_simp+
  have h1: "relationExists example_partial ''recmodelscatalogue''"
    by code_simp
  have h2: "recommenderExists example_partial (map tolower ''Foo'')"
    by code_simp
  have h3: "index_cells example_partial (map tolower ''Foo'') \<noteq> []"
    unfolding l c by simp
  have h4: "''recmodelscatalogue'' \<notin>
      set (map downcase (concat (map cell_names (index_cells example_partial (map tolower ''Foo'')))))"
    unfolding l c by (simp add: cell_names_def List.map_filter_def d)
  have m: "apply_stmt (DropTable ''fooModel170'') (tables example_partial) =
     Inl (ERROR ERRCODE_UNDEFINED_TABLE ''foomodel170'')"
    by (simp add: apply_stmt_def d example_partial_def)
  from destroy_drops_are_best_effort[OF h1 h2 h3 h4] obtain s' where
    r: "DropRecStmt_case ''Foo'' example_partial = (Inr (), s')"
    and t: "trace s' = trace example_partial @ destroy_events (map tolower ''Foo'')
                                   (index_cells example_partial (map tolower ''Foo''))"
    and n: "\<forall>n \<in> set (concat (map cell_names (index_cells example_partial (map tolower ''Foo'')))).
               \<not> relationExists s' (downcase n)"
    and i: "\<not> relationExists s' (map tolower ''Foo'' @ ''index'')"
    and e: "\<not> recommenderExists s' (map tolower ''Foo'')"
    by blast
  from t have t': "trace (snd (DropRecStmt_case ''Foo'' example_partial)) =
     [QueryStart (SelectAll ''fooindex''),
      Utility (DropTable ''fooModel170''), Utility (DropTable ''fooView170''),
      Utility (DropTable ''fooModel171''), Utility (DropTable ''fooView171''),
      Utility (DropTable ''fooindex''),
      Execute (DeleteFrom ''recmodelscatalogue'' ''recommenderindexname'' (TextV ''fooIndex''))]"
    unfolding l c r
    by (simp add: cell_names_def List.map_filter_def destroy_events_def example_partial_def
          example_built_def)
  from n have n': "\<not> relationExists s' ''fooview170''" "\<not> relationExists s' ''foomodel171''"
    unfolding l c by (simp_all add: cell_names_def List.map_filter_def d)
  from m r t' n' i e show ?thesis
    unfolding l by simp
qed



text \<open>
  C4. The cells of a build are the distinct combinations of the context attributes in
  the user table, each once; with no context attribute there is the one cell without
  values. For a build that succeeds, with the user table \<open>tu\<close> in the database
  before the build (and not the catalogue itself): when there are attributes, the query
  the build starts is SELECT DISTINCT of the attributes from the user table, the
  combinations are pairwise distinct and are exactly the projections of the rows of
  \<open>tu\<close>, and the rows of the index table correspond one to one, in order, to the
  combinations, the values of a row being the texts read from its combination; when
  there is no attribute, no query is started and the index table has one row.
\<close>

theorem cells_are_the_distinct_combinations:
  assumes "CreateRStmt_case ext recStmt s = (Inr (), s')"
    and "tables s (downcase (usertable recStmt)) = Some tu"
    and "downcase (usertable recStmt) \<noteq> ''recmodelscatalogue''"
  shows "\<exists>infos :: cell_info list.
           tables s' (downcase (relation recStmt @ ''Index'')) =
             Some \<lparr>cols = map downcase (index_columns (recmethod recStmt) @ attributes recStmt),
                   rows = map (\<lambda>i. index_row
                                 (model_names recStmt (models_of (recmethod recStmt)) (c_time i))
                                 (view_name recStmt (c_time i)) (c_ratings i) (c_attvalues i))
                            infos\<rparr> \<and>
           (if attributes recStmt = []
            then length infos = 1 \<and> map c_attvalues infos = [[]] \<and>
                 filter (\<lambda>e. case e of QueryStart q \<Rightarrow> True | _ \<Rightarrow> False)
                   (drop (length (trace s)) (trace s')) = []
            else filter (\<lambda>e. case e of QueryStart q \<Rightarrow> True | _ \<Rightarrow> False)
                   (drop (length (trace s)) (trace s')) =
                   [QueryStart (SelectDistinct (attributes recStmt) (usertable recStmt))] \<and>
                 list_all2
                   (\<lambda>i vs. map Some (c_attvalues i) =
                      map (getTupleString (zip (map downcase (attributes recStmt)) vs))
                        (attributes recStmt))
                   infos (combinations recStmt tu)) \<and>
           distinct (combinations recStmt tu) \<and>
           set (combinations recStmt tu) =
             (\<lambda>r. map (field (cols tu) r) (map downcase (attributes recStmt))) ` set (rows tu)"
proof -
  from CreateRStmt_case_result[OF assms(1)] obtain st infos where
    r: "build_result ext recStmt s st infos s'" by blast
  note p = build_result_parts[OF r]
  from p(8) assms(2,3) have c: "map (\<lambda>i. Some (c_attvalues i)) infos = cells_of recStmt (Some tu)"
    by auto
  let ?isq = "\<lambda>e. case e of QueryStart q \<Rightarrow> True | _ \<Rightarrow> False"
  have q1: "filter ?isq (infra_events recStmt b) = []" for b
    by (simp add: infra_events_def)
  have q2: "filter ?isq (stats_events recStmt st) = []"
    by (simp add: stats_events_def split: option.splits)
  have q3: "filter ?isq (cell_events recStmt models c attnames i) = []" for models c attnames i
    by (simp add: cell_events_def case_prod_beta)
  have q4: "filter ?isq (concat (map (cell_events recStmt models c attnames) is)) = []"
    for models c attnames "is"
    by (induction "is") (simp_all add: q3)
  have q: "filter ?isq (drop (length (trace s)) (trace s')) = query_events recStmt"
    unfolding p(1) by (simp add: q1 q2 q4) (simp add: query_events_def)
  show ?thesis
  proof (intro exI[of _ infos] conjI)
    show "tables s' (downcase (relation recStmt @ ''Index'')) =
             Some \<lparr>cols = map downcase (index_columns (recmethod recStmt) @ attributes recStmt),
                   rows = map (\<lambda>i. index_row
                                 (model_names recStmt (models_of (recmethod recStmt)) (c_time i))
                                 (view_name recStmt (c_time i)) (c_ratings i) (c_attvalues i))
                            infos\<rparr>"
      using p(2) by (simp add: cell_row_def)
    show "if attributes recStmt = []
            then length infos = 1 \<and> map c_attvalues infos = [[]] \<and>
                 filter ?isq (drop (length (trace s)) (trace s')) = []
            else filter ?isq (drop (length (trace s)) (trace s')) =
                   [QueryStart (SelectDistinct (attributes recStmt) (usertable recStmt))] \<and>
                 list_all2
                   (\<lambda>i vs. map Some (c_attvalues i) =
                      map (getTupleString (zip (map downcase (attributes recStmt)) vs))
                        (attributes recStmt))
                   infos (combinations recStmt tu)"
    proof (cases "attributes recStmt = []")
      case True
      with c have "map (\<lambda>i. Some (c_attvalues i)) infos = [Some []]"
        by (simp add: cells_of_def)
      then have "length infos = 1 \<and> map c_attvalues infos = [[]]"
        by (cases infos) auto
      with True q show ?thesis by (simp add: query_events_def)
    next
      case False
      with c have "map (\<lambda>i. Some (c_attvalues i)) infos =
          map (\<lambda>vs. those (map (getTupleString (zip (map downcase (attributes recStmt)) vs))
                                  (attributes recStmt))) (combinations recStmt tu)"
        by (simp add: cells_of_def)
      then have "list_all2 (\<lambda>i vs. Some (c_attvalues i) =
             those (map (getTupleString (zip (map downcase (attributes recStmt)) vs))
                                  (attributes recStmt))) infos (combinations recStmt tu)"
        by (simp only: map_eq_list_all2)
      then have "list_all2
                   (\<lambda>i vs. map Some (c_attvalues i) =
                      map (getTupleString (zip (map downcase (attributes recStmt)) vs))
                        (attributes recStmt))
                   infos (combinations recStmt tu)"
        by (rule list_all2_mono) (metis those_Some)
      with False q show ?thesis by (simp add: query_events_def)
    qed
    show "distinct (combinations recStmt tu)"
      by (simp add: combinations_def)
    show "set (combinations recStmt tu) =
             (\<lambda>r. map (field (cols tu) r) (map downcase (attributes recStmt))) ` set (rows tu)"
      by (simp add: combinations_def)
  qed
qed

theorem cells_are_the_distinct_combinations_witness:
  "combinations example_foo
     \<lparr>cols = [''uid'', ''region''],
      rows = [[IntV 1, TextV ''eu''], [IntV 2, TextV ''us''], [IntV 3, TextV ''eu'']]\<rparr> =
     [[TextV ''us''], [TextV ''eu'']] \<and>
   (\<exists>infos :: cell_info list.
      tables (snd (CreateRStmt_case example_ext example_foo example_users))
        (downcase (relation example_foo @ ''Index'')) =
        Some \<lparr>cols = map downcase (index_columns (recmethod example_foo) @ attributes example_foo),
              rows = map (\<lambda>i. index_row
                            (model_names example_foo (models_of (recmethod example_foo)) (c_time i))
                            (view_name example_foo (c_time i)) (c_ratings i) (c_attvalues i))
                       infos\<rparr> \<and>
      list_all2
        (\<lambda>i vs. map Some (c_attvalues i) =
           map (getTupleString (zip (map downcase (attributes example_foo)) vs))
             (attributes example_foo))
        infos [[TextV ''us''], [TextV ''eu'']])"
proof -
  let ?tu = "\<lparr>cols = [''uid'', ''region''],
      rows = [[IntV 1, TextV ''eu''], [IntV 2, TextV ''us''], [IntV 3, TextV ''eu'']]\<rparr>"
  have u: "downcase (usertable example_foo) = ''users''" by code_simp
  have a: "tables example_users (downcase (usertable example_foo)) = Some ?tu"
    unfolding u by (simp add: example_users_def)
  have b: "downcase (usertable example_foo) \<noteq> ''recmodelscatalogue''"
    unfolding u by simp
  have c: "combinations example_foo ?tu = [[TextV ''us''], [TextV ''eu'']]"
    by code_simp
  have n: "attributes example_foo \<noteq> []" by (simp add: example_foo_def)
  from cells_are_the_distinct_combinations[OF example_build a b] n c show ?thesis
    by auto
qed

text \<open>
  C5. After a destroy that succeeds, no model or view table named in the index table
  exists, the index table does not exist, and the recommender is no longer in the
  recommender-list table. What the destroy issued is, in this order: the scan of the
  index table, the warning if the scan gave no cell, the drops of the tables of each
  cell, the drop of the index table, the delete from the recommender-list table of the
  row with this index-table name.
\<close>

theorem destroy_completeness:
  assumes "DropRecStmt_case relname s = (Inr (), s')"
  shows "(\<forall>n \<in> set (concat (map cell_names (index_cells s (map tolower relname)))).
            \<not> relationExists s' (downcase n)) \<and>
         \<not> relationExists s' (map tolower relname @ ''index'') \<and>
         \<not> recommenderExists s' (map tolower relname) \<and>
         trace s' = trace s @ destroy_events (map tolower relname)
                                (index_cells s (map tolower relname))"
  using destroy_Inr_facts[OF assms] by blast

theorem destroy_completeness_witness:
  "\<not> relationExists (snd (DropRecStmt_case ''Foo'' example_built)) ''foomodel170'' \<and>
   \<not> relationExists (snd (DropRecStmt_case ''Foo'' example_built)) ''fooview171'' \<and>
   \<not> relationExists (snd (DropRecStmt_case ''Foo'' example_built)) ''fooindex'' \<and>
   \<not> recommenderExists (snd (DropRecStmt_case ''Foo'' example_built)) ''foo'' \<and>
   trace (snd (DropRecStmt_case ''Foo'' example_built)) =
     [QueryStart (SelectAll ''fooindex''),
      Utility (DropTable ''fooModel170''), Utility (DropTable ''fooView170''),
      Utility (DropTable ''fooModel171''), Utility (DropTable ''fooView171''),
      Utility (DropTable ''fooindex''),
      Execute (DeleteFrom ''recmodelscatalogue'' ''recommenderindexname'' (TextV ''fooIndex''))]"
proof -
  have "fst (DropRecStmt_case ''Foo'' example_built) = Inr ()"
    by code_simp
  then have h: "DropRecStmt_case ''Foo'' example_built =
      (Inr (), snd (DropRecStmt_case ''Foo'' example_built))"
    by (simp add: prod_eq_iff)
  have l: "map tolower ''Foo'' = ''foo''" by code_simp
  have c: "index_cells example_built ''foo'' =
      [\<lparr>modelname1 = Some ''fooModel170'', modelname2 = None, viewname = Some ''fooView170''\<rparr>,
       \<lparr>modelname1 = Some ''fooModel171'', modelname2 = None, viewname = Some ''fooView171''\<rparr>]"
    by code_simp
  have d: "downcase ''fooModel170'' = ''foomodel170''" "downcase ''fooView171'' = ''fooview171''"
    by code_simp+
  from destroy_completeness[OF h] show ?thesis
    unfolding l c
    by (simp add: cell_names_def List.map_filter_def destroy_events_def d example_built_def)
qed

text \<open>
  C6. The properties table and its default row are created only if absent, and every
  later build leaves them as they are. After a build that succeeds, the relation
  \<open>recathonproperties\<close> is what it was before when it existed, and is the table
  with the single row \<open>(0.5, 0, true)\<close> when it did not; any build that follows,
  whatever its request and outcome, leaves that relation unchanged, so the row is
  neither duplicated nor written again with other values.
\<close>

theorem properties_created_once:
  assumes "CreateRStmt_case ext1 r1 s = (Inr (), s1)"
  shows "tables s1 ''recathonproperties'' =
           (case tables s ''recathonproperties'' of
              None \<Rightarrow> Some default_properties | Some t \<Rightarrow> Some t) \<and>
         tables (snd (CreateRStmt_case ext2 r2 s1)) ''recathonproperties'' =
           tables s1 ''recathonproperties''"
proof -
  from assms obtain sa where ct: "createTables r1 s = (Inr (), sa)"
    and cm: "createModels ext1 r1 sa = (Inr (), s1)"
    by (auto simp: CreateRStmt_case_def seq_Inr)
  note f = createTables_Inr(2)[OF ct]
  obtain tp where tp: "tables sa ''recathonproperties'' = Some tp"
    and tp_eq: "Some tp = (case tables s ''recathonproperties'' of
              None \<Rightarrow> Some default_properties | Some t \<Rightarrow> Some t)"
    using f by (cases "tables s ''recathonproperties''") auto
  have "downcase (relation r1 @ ''Index'') \<noteq> ''recathonproperties''"
    by (rule createTables_Inr(7)[OF ct])
  from preservesD[OF keeps_createModels[OF this] _ cm, of tp] tp
  have k1: "keeps ''recathonproperties'' tp s1" by (simp add: keeps_def)
  have "preserves (keeps ''recathonproperties'' tp) (CreateRStmt_case ext2 r2)"
    by (rule keeps_CreateRStmt_case) simp
  with k1 have "keeps ''recathonproperties'' tp (snd (CreateRStmt_case ext2 r2 s1))"
    by (simp add: preserves_def)
  with k1 tp_eq show ?thesis by (simp add: keeps_def)
qed

theorem properties_created_once_witness:
  "tables (snd (CreateRStmt_case example_ext example_foo example_users)) ''recathonproperties'' =
     Some default_properties \<and>
   tables (snd (CreateRStmt_case example_ext example_bar
                  (snd (CreateRStmt_case example_ext example_foo example_users))))
     ''recathonproperties'' = Some default_properties"
proof -
  have "fst (CreateRStmt_case example_ext example_foo example_users) = Inr ()"
    by code_simp
  then have h: "CreateRStmt_case example_ext example_foo example_users =
      (Inr (), snd (CreateRStmt_case example_ext example_foo example_users))"
    by (simp add: prod_eq_iff)
  have n: "tables example_users ''recathonproperties'' = None"
    by (simp add: example_users_def)
  from properties_created_once[OF h, of example_ext example_bar] n show ?thesis
    by (simp only: option.case)
qed

text \<open>
  C7. A destroy issued when there is no recommender-list table fails with the fatal
  error of line 1449 (its text in the code is \<open>no recommenders have been created\<close>),
  and a destroy of a name that is not in the recommender-list table fails with the fatal
  error \<open>recommender ... does not exist\<close>. In both cases the state returned is the
  state given: no statement was issued, the tables and the trace are untouched. The name
  is folded to lower case first: the check and the message use the folded name, and a
  request gives the same result as the request with its name folded.
\<close>

theorem destroy_unknown_is_fatal:
  "(\<not> relationExists s ''recmodelscatalogue'' \<longrightarrow>
      DropRecStmt_case relname s =
        (Inl (ERROR ERRCODE_INVALID_SCHEMA_NAME ''no recommenders have been created''), s)) \<and>
   (relationExists s ''recmodelscatalogue'' \<longrightarrow>
    \<not> recommenderExists s (map tolower relname) \<longrightarrow>
      DropRecStmt_case relname s =
        (Inl (ERROR ERRCODE_INVALID_SCHEMA_NAME
                (''recommender '' @ map tolower relname @ '' does not exist'')), s)) \<and>
   DropRecStmt_case (map tolower relname) s = DropRecStmt_case relname s"
  by (simp add: DropRecStmt_case_def raise_def map_tolower_idem)

theorem destroy_unknown_is_fatal_witness:
  "DropRecStmt_case ''Foo'' example_empty =
     (Inl (ERROR ERRCODE_INVALID_SCHEMA_NAME ''no recommenders have been created''),
      example_empty) \<and>
   DropRecStmt_case ''Bar'' example_built =
     (Inl (ERROR ERRCODE_INVALID_SCHEMA_NAME ''recommender bar does not exist''),
      example_built)"
proof -
  have a: "\<not> relationExists example_empty ''recmodelscatalogue''"
    by (simp add: relationExists_def example_empty_def)
  have b: "relationExists example_built ''recmodelscatalogue''"
    by code_simp
  have c: "\<not> recommenderExists example_built (map tolower ''Bar'')"
    by code_simp
  have d: "map tolower ''Bar'' = ''bar''"
    by code_simp
  from destroy_unknown_is_fatal[of example_empty "''Foo''"]
       destroy_unknown_is_fatal[of example_built "''Bar''"] a b c d
  show ?thesis by simp
qed

text \<open>
  C8. When the scan of the index table succeeds with no row, the destroy emits the
  warning and goes on: it succeeds, the statements it issues are the scan, the warning,
  the drop of the index table and the delete from the recommender-list table, and
  afterwards the index table is gone and the recommender is no longer in the list.
\<close>

theorem destroy_without_cells_warns_and_continues:
  assumes "relationExists s ''recmodelscatalogue''"
    and "recommenderExists s (map tolower relname)"
    and "tables s (map tolower relname @ ''index'') = Some t"
    and "rows t = []"
  shows "\<exists>s'. DropRecStmt_case relname s = (Inr (), s') \<and>
           trace s' = trace s @
             [QueryStart (SelectAll (map tolower relname @ ''index'')),
              WARNING ERRCODE_INVALID_SCHEMA_NAME
                (''failed to find cells for recommender '' @ map tolower relname),
              Utility (DropTable (map tolower relname @ ''index'')),
              Execute (DeleteFrom ''recmodelscatalogue'' ''recommenderindexname''
                         (TextV (map tolower relname @ ''Index'')))] \<and>
           \<not> relationExists s' (map tolower relname @ ''index'') \<and>
           \<not> recommenderExists s' (map tolower relname)"
proof -
  from destroy_no_cells[OF assms] obtain s' where
    d: "DropRecStmt_case relname s = (Inr (), s')"
    and tr: "trace s' = trace s @
             [QueryStart (SelectAll (map tolower relname @ ''index'')),
              WARNING ERRCODE_INVALID_SCHEMA_NAME
                (''failed to find cells for recommender '' @ map tolower relname),
              Utility (DropTable (map tolower relname @ ''index'')),
              Execute (DeleteFrom ''recmodelscatalogue'' ''recommenderindexname''
                         (TextV (map tolower relname @ ''Index'')))]"
    by blast
  from d tr destroy_Inr_facts(2,3)[OF d] show ?thesis by blast
qed

theorem destroy_without_cells_witness:
  "fst (DropRecStmt_case ''FOO'' example_no_cells) = Inr () \<and>
   trace (snd (DropRecStmt_case ''FOO'' example_no_cells)) =
     [QueryStart (SelectAll ''fooindex''),
      WARNING ERRCODE_INVALID_SCHEMA_NAME ''failed to find cells for recommender foo'',
      Utility (DropTable ''fooindex''),
      Execute (DeleteFrom ''recmodelscatalogue'' ''recommenderindexname'' (TextV ''fooIndex''))] \<and>
   \<not> relationExists (snd (DropRecStmt_case ''FOO'' example_no_cells)) ''fooindex'' \<and>
   \<not> recommenderExists (snd (DropRecStmt_case ''FOO'' example_no_cells)) ''foo''"
proof -
  have l: "map tolower ''FOO'' = ''foo''" by code_simp
  have a: "relationExists example_no_cells ''recmodelscatalogue''"
    by (simp add: relationExists_def example_no_cells_def)
  have b: "recommenderExists example_no_cells (map tolower ''FOO'')"
    unfolding l by code_simp
  have c: "tables example_no_cells (map tolower ''FOO'' @ ''index'') =
      Some \<lparr>cols = [''systemid'', ''recmodelname'', ''recviewname''], rows = []\<rparr>"
    unfolding l by (simp add: example_no_cells_def)
  from destroy_without_cells_warns_and_continues[OF a b c] l show ?thesis
    by (auto simp: example_no_cells_def)
qed

text \<open>
  C9. What a build that succeeds has issued is: the statements of \<open>createTables\<close>,
  then, for the item and user methods, one precomputation call (\<open>vector_lengths\<close>
  for cosine, \<open>pearson_info\<close> for Pearson) whose arguments are the item or user
  table, its key, the rating table and the rating column, with no context attribute,
  then the query and the cells. Nothing before the precomputation is a backend call,
  nothing after it is a precomputation, and every populate call after it is passed the
  statistics this one call returned. For SVD there is no precomputation call and no
  populate call is passed statistics.
\<close>

theorem statistics_precomputed_once:
  assumes "CreateRStmt_case ext recStmt s = (Inr (), s')"
  shows "\<exists>st rest.
           drop (length (trace s)) (trace s') =
             infra_events recStmt (tables s ''recathonproperties'' = None) @
             (case stats_call recStmt of None \<Rightarrow> [] | Some sc \<Rightarrow> [Backend sc (Stats st)]) @ rest \<and>
           (\<forall>e \<in> set (infra_events recStmt (tables s ''recathonproperties'' = None)).
              \<not> is_precompute e \<and> stats_passed e = None) \<and>
           (\<forall>e \<in> set rest. \<not> is_precompute e \<and>
              (\<forall>c r. e = Backend c r \<longrightarrow>
                 stats_passed e = (if recmethod recStmt = SVD then None else Some st))) \<and>
           (\<forall>sc. stats_call recStmt = Some sc \<longrightarrow> (\<exists>d. call_stats ext d sc = Inr st)) \<and>
           (stats_call recStmt = None) = (recmethod recStmt = SVD)"
proof -
  from CreateRStmt_case_result[OF assms] obtain st infos where
    r: "build_result ext recStmt s st infos s'" by blast
  note p = build_result_parts[OF r]
  let ?rest = "query_events recStmt @
       concat (map (cell_events recStmt (models_of (recmethod recStmt))
                      (populate_call (recmethod recStmt) st) (attributes recStmt)) infos)"
  show ?thesis
  proof (intro exI[of _ st] exI[of _ ?rest] conjI)
    show "drop (length (trace s)) (trace s') =
             infra_events recStmt (tables s ''recathonproperties'' = None) @
             (case stats_call recStmt of None \<Rightarrow> [] | Some sc \<Rightarrow> [Backend sc (Stats st)]) @ ?rest"
      unfolding p(1) by (simp add: stats_events_def)
    show "\<forall>e \<in> set (infra_events recStmt (tables s ''recathonproperties'' = None)).
              \<not> is_precompute e \<and> stats_passed e = None"
      using infra_events_no_backend by blast
    show "\<forall>e \<in> set ?rest. \<not> is_precompute e \<and>
              (\<forall>c r. e = Backend c r \<longrightarrow>
                 stats_passed e = (if recmethod recStmt = SVD then None else Some st))"
    proof
      fix e assume "e \<in> set ?rest"
      then consider "e \<in> set (query_events recStmt)"
        | i where "e \<in> set (cell_events recStmt (models_of (recmethod recStmt))
                      (populate_call (recmethod recStmt) st) (attributes recStmt) i)"
        by auto
      then show "\<not> is_precompute e \<and>
              (\<forall>c r. e = Backend c r \<longrightarrow>
                 stats_passed e = (if recmethod recStmt = SVD then None else Some st))"
      proof cases
        case 1
        then show ?thesis using query_events_no_precompute by blast
      next
        case 2
        from cell_events_no_precompute[OF 2] show ?thesis by blast
      qed
    qed
    show "\<forall>sc. stats_call recStmt = Some sc \<longrightarrow> (\<exists>d. call_stats ext d sc = Inr st)"
      by (rule p(10))
    show "(stats_call recStmt = None) = (recmethod recStmt = SVD)"
      by (simp add: stats_call_def split: recMethod.splits)
  qed
qed

theorem statistics_precomputed_once_witness:
  "\<exists>st rest.
     drop (length (trace example_users))
       (trace (snd (CreateRStmt_case example_ext example_foo example_users))) =
       infra_events example_foo (tables example_users ''recathonproperties'' = None) @
       (case stats_call example_foo of None \<Rightarrow> [] | Some sc \<Rightarrow> [Backend sc (Stats st)]) @ rest \<and>
     (\<forall>e \<in> set (infra_events example_foo (tables example_users ''recathonproperties'' = None)).
        \<not> is_precompute e \<and> stats_passed e = None) \<and>
     (\<forall>e \<in> set rest. \<not> is_precompute e \<and>
        (\<forall>c r. e = Backend c r \<longrightarrow>
           stats_passed e = (if recmethod example_foo = SVD then None else Some st))) \<and>
     (\<forall>sc. stats_call example_foo = Some sc \<longrightarrow> (\<exists>d. call_stats example_ext d sc = Inr st)) \<and>
     (stats_call example_foo = None) = (recmethod example_foo = SVD)"
  by (rule statistics_precomputed_once[OF example_build])

text \<open>
  C10. Every cell of a build takes its names from one clock read: the cells of a build
  that succeeds read the clock once each, one after the other, and the row of a cell
  holds the base name followed by \<open>Model\<close> (for SVD \<open>UserModel\<close> and
  \<open>ItemModel\<close>) and by \<open>View\<close>, each followed by the seconds and the
  microseconds of the read of that cell; the index table is the relation named the base
  name followed by \<open>Index\<close>. A destroy that succeeds drops, besides the index
  table, exactly the names it read from the columns \<open>recmodelname\<close>,
  \<open>recusermodelname\<close>, \<open>recitemmodelname\<close> and \<open>recviewname\<close> of the rows
  of the index table.
\<close>

theorem artifact_names_derivation:
  "(CreateRStmt_case ext recStmt s = (Inr (), s') \<longrightarrow>
      (\<exists>infos :: cell_info list.
         tables s' (downcase (relation recStmt @ ''Index'')) =
           Some \<lparr>cols = map downcase (index_columns (recmethod recStmt) @ attributes recStmt),
                 rows = map (\<lambda>i. index_row
                               (map (\<lambda>k. relation recStmt @ k @
                                       show_long (fst (c_time i)) @ show_long (snd (c_time i)))
                                  (if recmethod recStmt = SVD then [''UserModel'', ''ItemModel'']
                                   else [''Model'']))
                               (relation recStmt @ ''View'' @
                                  show_long (fst (c_time i)) @ show_long (snd (c_time i)))
                               (c_ratings i) (c_attvalues i)) infos\<rparr> \<and>
         map c_time infos = map (gettimeofday ext) [ticks s ..< ticks s + length infos] \<and>
         ticks s' = ticks s + length infos)) \<and>
   (DropRecStmt_case relname d = (Inr (), d') \<longrightarrow>
      filter is_drop (drop (length (trace d)) (trace d')) =
        map (\<lambda>n. Utility (DropTable n))
          (concat (map cell_names (index_cells d (map tolower relname)))) @
        [Utility (DropTable (map tolower relname @ ''index''))] \<and>
      (\<forall>n \<in> set (concat (map cell_names (index_cells d (map tolower relname)))).
         \<exists>t r c. tables d (map tolower relname @ ''index'') = Some t \<and> r \<in> set (rows t) \<and>
           c \<in> set [''recmodelname'', ''recusermodelname'', ''recitemmodelname'', ''recviewname''] \<and>
           c \<in> set (cols t) \<and> textual (field (cols t) r c) = Some n))"
proof (intro conjI impI)
  assume a: "CreateRStmt_case ext recStmt s = (Inr (), s')"
  from CreateRStmt_case_result[OF a] obtain st infos where
    r: "build_result ext recStmt s st infos s'" by blast
  note p = build_result_parts[OF r]
  have names: "model_names recStmt (models_of (recmethod recStmt)) ts =
      map (\<lambda>k. relation recStmt @ k @ show_long (fst ts) @ show_long (snd ts))
        (if recmethod recStmt = SVD then [''UserModel'', ''ItemModel''] else [''Model''])" for ts
    by (cases "recmethod recStmt") (simp_all add: model_names_def models_of_def stamp_def)
  show "\<exists>infos :: cell_info list.
         tables s' (downcase (relation recStmt @ ''Index'')) =
           Some \<lparr>cols = map downcase (index_columns (recmethod recStmt) @ attributes recStmt),
                 rows = map (\<lambda>i. index_row
                               (map (\<lambda>k. relation recStmt @ k @
                                       show_long (fst (c_time i)) @ show_long (snd (c_time i)))
                                  (if recmethod recStmt = SVD then [''UserModel'', ''ItemModel'']
                                   else [''Model'']))
                               (relation recStmt @ ''View'' @
                                  show_long (fst (c_time i)) @ show_long (snd (c_time i)))
                               (c_ratings i) (c_attvalues i)) infos\<rparr> \<and>
         map c_time infos = map (gettimeofday ext) [ticks s ..< ticks s + length infos] \<and>
         ticks s' = ticks s + length infos"
  proof (intro exI[of _ infos] conjI)
    show "tables s' (downcase (relation recStmt @ ''Index'')) =
           Some \<lparr>cols = map downcase (index_columns (recmethod recStmt) @ attributes recStmt),
                 rows = map (\<lambda>i. index_row
                               (map (\<lambda>k. relation recStmt @ k @
                                       show_long (fst (c_time i)) @ show_long (snd (c_time i)))
                                  (if recmethod recStmt = SVD then [''UserModel'', ''ItemModel'']
                                   else [''Model'']))
                               (relation recStmt @ ''View'' @
                                  show_long (fst (c_time i)) @ show_long (snd (c_time i)))
                               (c_ratings i) (c_attvalues i)) infos\<rparr>"
      unfolding p(2) by (simp add: cell_row_def names view_name_def stamp_def)
    show "map c_time infos = map (gettimeofday ext) [ticks s ..< ticks s + length infos]"
      by (rule p(7))
    show "ticks s' = ticks s + length infos" by (rule p(6))
  qed
next
  assume a: "DropRecStmt_case relname d = (Inr (), d')"
  from destroy_Inr_facts(4)[OF a]
  show "filter is_drop (drop (length (trace d)) (trace d')) =
        map (\<lambda>n. Utility (DropTable n))
          (concat (map cell_names (index_cells d (map tolower relname)))) @
        [Utility (DropTable (map tolower relname @ ''index''))]"
    by (simp add: is_drop_destroy_events)
next
  assume a: "DropRecStmt_case relname d = (Inr (), d')"
  show "\<forall>n \<in> set (concat (map cell_names (index_cells d (map tolower relname)))).
         \<exists>t r c. tables d (map tolower relname @ ''index'') = Some t \<and> r \<in> set (rows t) \<and>
           c \<in> set [''recmodelname'', ''recusermodelname'', ''recitemmodelname'', ''recviewname''] \<and>
           c \<in> set (cols t) \<and> textual (field (cols t) r c) = Some n"
    using index_cells_names by blast
qed

theorem artifact_names_derivation_witness:
  "(\<exists>infos :: cell_info list.
      tables (snd (CreateRStmt_case example_ext example_foo example_users))
        (downcase (relation example_foo @ ''Index'')) =
        Some \<lparr>cols = map downcase (index_columns (recmethod example_foo) @ attributes example_foo),
              rows = map (\<lambda>i. index_row
                            (map (\<lambda>k. relation example_foo @ k @
                                    show_long (fst (c_time i)) @ show_long (snd (c_time i)))
                               (if recmethod example_foo = SVD then [''UserModel'', ''ItemModel'']
                                else [''Model'']))
                            (relation example_foo @ ''View'' @
                               show_long (fst (c_time i)) @ show_long (snd (c_time i)))
                            (c_ratings i) (c_attvalues i)) infos\<rparr> \<and>
      map c_time infos =
        map (gettimeofday example_ext) [ticks example_users ..< ticks example_users + length infos] \<and>
      ticks (snd (CreateRStmt_case example_ext example_foo example_users)) =
        ticks example_users + length infos) \<and>
   filter is_drop (trace (snd (DropRecStmt_case ''Foo'' example_built))) =
     [Utility (DropTable ''fooModel170''), Utility (DropTable ''fooView170''),
      Utility (DropTable ''fooModel171''), Utility (DropTable ''fooView171''),
      Utility (DropTable ''fooindex'')] \<and>
   (\<exists>t r c. tables example_built ''fooindex'' = Some t \<and> r \<in> set (rows t) \<and>
      c \<in> set [''recmodelname'', ''recusermodelname'', ''recitemmodelname'', ''recviewname''] \<and>
      c \<in> set (cols t) \<and> textual (field (cols t) r c) = Some ''fooView171'')"
proof -
  have "fst (DropRecStmt_case ''Foo'' example_built) = Inr ()"
    by code_simp
  then have h: "DropRecStmt_case ''Foo'' example_built =
      (Inr (), snd (DropRecStmt_case ''Foo'' example_built))"
    by (simp add: prod_eq_iff)
  have l: "map tolower ''Foo'' = ''foo''" by code_simp
  have c: "concat (map cell_names (index_cells example_built ''foo'')) =
      [''fooModel170'', ''fooView170'', ''fooModel171'', ''fooView171'']"
    by code_simp
  have t: "trace example_built = []" by (simp add: example_built_def)
  note w = artifact_names_derivation[of example_ext example_foo example_users
      "snd (CreateRStmt_case example_ext example_foo example_users)"
      "''Foo''" example_built "snd (DropRecStmt_case ''Foo'' example_built)", unfolded l c]
  from w example_build have 1: "\<exists>infos :: cell_info list.
      tables (snd (CreateRStmt_case example_ext example_foo example_users))
        (downcase (relation example_foo @ ''Index'')) =
        Some \<lparr>cols = map downcase (index_columns (recmethod example_foo) @ attributes example_foo),
              rows = map (\<lambda>i. index_row
                            (map (\<lambda>k. relation example_foo @ k @
                                    show_long (fst (c_time i)) @ show_long (snd (c_time i)))
                               (if recmethod example_foo = SVD then [''UserModel'', ''ItemModel'']
                                else [''Model'']))
                            (relation example_foo @ ''View'' @
                               show_long (fst (c_time i)) @ show_long (snd (c_time i)))
                            (c_ratings i) (c_attvalues i)) infos\<rparr> \<and>
      map c_time infos =
        map (gettimeofday example_ext) [ticks example_users ..< ticks example_users + length infos] \<and>
      ticks (snd (CreateRStmt_case example_ext example_foo example_users)) =
        ticks example_users + length infos"
    by blast
  from w h t have 2: "filter is_drop (trace (snd (DropRecStmt_case ''Foo'' example_built))) =
     [Utility (DropTable ''fooModel170''), Utility (DropTable ''fooView170''),
      Utility (DropTable ''fooModel171''), Utility (DropTable ''fooView171''),
      Utility (DropTable ''fooindex'')]"
    by simp
  from w h have 3: "\<exists>t r c. tables example_built ''fooindex'' = Some t \<and> r \<in> set (rows t) \<and>
      c \<in> set [''recmodelname'', ''recusermodelname'', ''recitemmodelname'', ''recviewname''] \<and>
      c \<in> set (cols t) \<and> textual (field (cols t) r c) = Some ''fooView171''"
    by simp
  from 1 2 3 show ?thesis by blast
qed

end
